theory Spec2Isabelle
  imports Complex_Main
begin

section \<open>Python strings\<close>

text \<open>
  A Python \<^verbatim>\<open>str\<close> is a \<^typ>\<open>string\<close>; a character stands for the code point of the
  same number, so the model covers the code points below 256. The character classes
  below are those of Python on that range: \<^verbatim>\<open>str.isdigit\<close> accepts the ASCII
  digits and the superscripts U+00B2, U+00B3 and U+00B9; \<^verbatim>\<open>str.isspace\<close> (the
  characters \<^verbatim>\<open>str.strip()\<close> removes) accepts U+0009..U+000D, U+001C..U+0020,
  U+0085 and U+00A0; the regular expression class \<^verbatim>\<open>\d\<close> accepts the ASCII digits
  only; \<^verbatim>\<open>[\w\d_-]\<close> accepts the alphanumeric characters, the underscore and
  the hyphen.
\<close>

definition isdigit :: "char \<Rightarrow> bool" where
  "isdigit c =
     (let n = (of_char c :: nat)
      in (48 \<le> n \<and> n \<le> 57) \<or> n = 178 \<or> n = 179 \<or> n = 185)"

definition isspace :: "char \<Rightarrow> bool" where
  "isspace c =
     (let n = (of_char c :: nat)
      in (9 \<le> n \<and> n \<le> 13) \<or> (28 \<le> n \<and> n \<le> 32) \<or> n = 133 \<or> n = 160)"

definition isdecimal :: "char \<Rightarrow> bool" where
  "isdecimal c = (let n = (of_char c :: nat) in 48 \<le> n \<and> n \<le> 57)"

definition word_or_hyphen :: "char \<Rightarrow> bool" where
  "word_or_hyphen c =
     (let n = (of_char c :: nat)
      in n = 45 \<or> (48 \<le> n \<and> n \<le> 57) \<or> (65 \<le> n \<and> n \<le> 90) \<or> n = 95
         \<or> (97 \<le> n \<and> n \<le> 122) \<or> n = 170 \<or> n = 178 \<or> n = 179 \<or> n = 181
         \<or> n = 185 \<or> n = 186 \<or> (188 \<le> n \<and> n \<le> 190) \<or> (192 \<le> n \<and> n \<le> 214)
         \<or> (216 \<le> n \<and> n \<le> 246) \<or> 248 \<le> n)"

definition strip :: "string \<Rightarrow> string" where
  "strip s = rev (dropWhile isspace (rev (dropWhile isspace s)))"

definition startswith :: "string \<Rightarrow> string \<Rightarrow> bool" where
  "startswith s p = (take (length p) s = p)"

text \<open>\<^verbatim>\<open>s.split(sep)\<close> for a separator of one character.\<close>

fun split :: "char \<Rightarrow> string \<Rightarrow> string list" where
  "split sep [] = [[]]"
| "split sep (c # cs) =
     (if c = sep then [] # split sep cs
      else (case split sep cs of
              [] \<Rightarrow> [[c]]
            | piece # pieces \<Rightarrow> (c # piece) # pieces))"

text \<open>
  \<^verbatim>\<open>int(s)\<close> on a string: surrounding whitespace is dropped, one sign is allowed,
  and the digits may be separated by single underscores. \<^const>\<open>None\<close> stands for
  \<^verbatim>\<open>ValueError\<close>. (The interpreter's bound on the length of a decimal literal is
  not modelled.) The whitespace \<^verbatim>\<open>int\<close> drops is not that of \<^verbatim>\<open>str.strip\<close>: on the
  range it is U+0009..U+000D, U+0020, U+0085 and U+00A0, and the separators
  U+001C..U+001F make the literal invalid.
\<close>

definition int_space :: "char \<Rightarrow> bool" where
  "int_space c =
     (let n = (of_char c :: nat)
      in (9 \<le> n \<and> n \<le> 13) \<or> n = 32 \<or> n = 133 \<or> n = 160)"

fun no_double_underscore :: "string \<Rightarrow> bool" where
  "no_double_underscore (a # b # cs) =
     (\<not> (a = CHR ''_'' \<and> b = CHR ''_'') \<and> no_double_underscore (b # cs))"
| "no_double_underscore cs = True"

definition decimal_value :: "string \<Rightarrow> nat" where
  "decimal_value ds = foldl (\<lambda>a c. 10 * a + (of_char c - 48)) 0 ds"

definition py_int :: "string \<Rightarrow> int option" where
  "py_int s =
     (let t = rev (dropWhile int_space (rev (dropWhile int_space s)));
          negative = startswith t ''-'';
          body = (if startswith t ''-'' \<or> startswith t ''+'' then drop 1 t else t)
      in if body \<noteq> [] \<and> list_all (\<lambda>c. isdecimal c \<or> c = CHR ''_'') body
            \<and> isdecimal (hd body) \<and> isdecimal (last body) \<and> no_double_underscore body
         then Some (if negative then - int (decimal_value (filter isdecimal body))
                    else int (decimal_value (filter isdecimal body)))
         else None)"

section \<open>Phone numbers\<close>

text \<open>
  \<^verbatim>\<open>normalize_phone\<close> (bot.py, lines 178 to 182):
  \<^verbatim>\<open>
  def normalize_phone(phone: str) -> str:
      phone = phone.strip()
      if phone.startswith('+'):
          return '+' + ''.join(c for c in phone[1:] if c.isdigit())
      return '+' + ''.join(c for c in phone if c.isdigit())
  \<close>
\<close>

definition normalize_phone :: "string \<Rightarrow> string" where
  "normalize_phone phone0 =
     (let phone = strip phone0
      in if startswith phone ''+'' then CHR ''+'' # filter isdigit (drop 1 phone)
         else CHR ''+'' # filter isdigit phone)"

text \<open>
  \<^verbatim>\<open>re.match(r'^\+\d{7,15}$', phone)\<close>: a plus sign, then between 7 and 15 decimal
  digits, then the end of the string; \<^verbatim>\<open>$\<close> also matches just before a final
  newline.
\<close>

definition phone_pattern :: "string \<Rightarrow> bool" where
  "phone_pattern s =
     (case s of
        [] \<Rightarrow> False
      | c # cs \<Rightarrow>
          c = CHR ''+''
          \<and> (dropWhile isdecimal cs = [] \<or> dropWhile isdecimal cs = [CHR 0x0A])
          \<and> 7 \<le> length (takeWhile isdecimal cs) \<and> length (takeWhile isdecimal cs) \<le> 15)"

section \<open>Message links\<close>

text \<open>
  The pattern \<^verbatim>\<open>https://t\.me/(c/|)(@?[\w\d_-]+|\d+)/(\d+)\<close> of
  \<^verbatim>\<open>extract_message_info\<close> and \<^verbatim>\<open>receive_msg_link\<close>, matched at the start of the
  link as \<^verbatim>\<open>re.match\<close> does. The slash is outside the class \<^verbatim>\<open>[\w\d_-]\<close>, so
  the second group is the longest run of class characters (after an optional \<^verbatim>\<open>@\<close>)
  and must be followed by a slash and a digit; the alternative \<^verbatim>\<open>\d+\<close> matches
  nothing the first alternative does not. The first group prefers \<^verbatim>\<open>c/\<close> and
  falls back to the empty string. The result holds the three groups.
\<close>

definition match_chat_and_id :: "string \<Rightarrow> (string \<times> string) option" where
  "match_chat_and_id s =
     (let at_sign = (if startswith s ''@'' then ''@'' else []);
          name = takeWhile word_or_hyphen (drop (length at_sign) s);
          rest = drop (length at_sign + length name) s;
          digits = takeWhile isdecimal (drop 1 rest)
      in if name \<noteq> [] \<and> startswith rest ''/'' \<and> digits \<noteq> [] then Some (at_sign @ name, digits)
         else None)"

definition message_link_match :: "string \<Rightarrow> (string \<times> string \<times> string) option" where
  "message_link_match link =
     (if \<not> startswith link ''https://t.me/'' then None
      else let r = drop 13 link
           in (case (if startswith r ''c/'' then match_chat_and_id (drop 2 r) else None) of
                 Some (chat, digits) \<Rightarrow> Some (''c/'', chat, digits)
               | None \<Rightarrow>
                   (case match_chat_and_id r of
                      Some (chat, digits) \<Rightarrow> Some ([], chat, digits)
                    | None \<Rightarrow> None)))"

text \<open>
  \<^verbatim>\<open>extract_message_info\<close> (lines 184 to 195) returns \<^verbatim>\<open>(None, None)\<close>, here
  \<^const>\<open>None\<close>, when the link does not match, and otherwise the chat identifier
  (prefixed with \<^verbatim>\<open>-100\<close> for a \<^verbatim>\<open>c/\<close> link) and the message number.
\<close>

definition extract_message_info :: "string \<Rightarrow> (string \<times> nat) option" where
  "extract_message_info message_link =
     (case message_link_match message_link of
        None \<Rightarrow> None
      | Some (prefix, chat_identifier, digits) \<Rightarrow>
          Some (if prefix = ''c/'' then ''-100'' @ chat_identifier else chat_identifier,
                decimal_value digits))"

section \<open>The remote side, the clock and the flood clock\<close>

text \<open>
  An account is known by its phone number; the client object created for it is
  identified with it. \<^verbatim>\<open>user_clients\<close> is a dictionary in insertion order: a
  list of accounts, each the phone with the pair of the client and its session string.
\<close>

type_synonym phone = string

datatype client = TelegramClient phone

type_synonym account = "phone \<times> client \<times> string"

text \<open>
  The exceptions the code distinguishes; \<open>OtherError\<close> stands for any other
  \<^verbatim>\<open>Exception\<close>. \<open>FloodWaitError\<close> carries its \<^verbatim>\<open>seconds\<close>.
\<close>

datatype exn =
    FloodWaitError nat
  | UserNotParticipantError
  | ReactionInvalidError
  | InviteHashExpiredError
  | InviteHashInvalidError
  | ChannelsTooMuchError
  | UserAlreadyParticipantError
  | SessionPasswordNeededError
  | ValueError
  | IndexError
  | KeyError
  | UnboundLocalError
  | OtherError

text \<open>The argument of \<^verbatim>\<open>client.get_entity\<close>: a number or a name (a link is a name).\<close>

datatype peer = ById int | ByName string

text \<open>The remote calls of the code; an entity is the number the remote side answers.\<close>

datatype request =
    GetEntity peer
  | ImportChatInviteRequest string
  | JoinChannelRequest nat
  | LeaveChannelRequest nat
  | SendReactionRequest nat nat string
  | GetMessagesViewsRequest nat nat
  | SendCodeRequest
  | GetMe

text \<open>
  A remote call as it was issued: the event-loop time, the account, the request, and
  the account's entry in \<^verbatim>\<open>flood_wait_until\<close> at that moment.
\<close>

record call =
  call_time :: real
  call_phone :: phone
  call_request :: request
  call_wait_until :: "real option"

text \<open>
  What the program does not decide: the \<open>n\<close>-th answer of the session layer (the time
  it took, in whole seconds, and either the exception raised or the number returned),
  the \<open>n\<close>-th random integer behind \<^verbatim>\<open>random.choice\<close>, and the \<open>n\<close>-th value of
  \<^verbatim>\<open>random.uniform(0, 2)\<close>.
\<close>

record environment =
  answer :: "nat \<Rightarrow> nat \<times> (exn + nat)"
  pick :: "nat \<Rightarrow> nat"
  uniform :: "nat \<Rightarrow> real"

text \<open>The settings read from the process environment (lines 78 to 90).\<close>

record config =
  JOIN_DELAY :: real
  REACT_DELAY :: real
  VIEW_DELAY :: real
  EMOJIS :: "string list"

text \<open>
  The lines of \<^verbatim>\<open>success_list\<close> and \<^verbatim>\<open>failed_list\<close>, by their fields, and the
  value a batch returns: the notice of cancellation, or the summary made of the header
  (the number of successes and \<^verbatim>\<open>count\<close>) and the two lists.
\<close>

datatype entry =
    JoinedEntry phone
  | JoinFailedEntry phone
  | NotConnectedEntry phone
  | LeftEntry phone
  | FloodWaitEntry phone nat
  | LeaveFailedEntry phone
  | ReactedEntry phone string
  | ReactFailedEntry phone
  | ViewedEntry phone
  | ViewFailedEntry phone

datatype result = Canceled | Summary nat nat "entry list" "entry list"

text \<open>The lines of the account listing of \<^verbatim>\<open>info\<close>.\<close>

datatype info_line =
    NotConnectedLine nat phone
  | AccountLine nat phone bool nat
  | ErrorLine nat phone

text \<open>The messages sent to the operator with \<^verbatim>\<open>event.reply\<close>, by their fields.\<close>

datatype reply =
    JoinCanceled
  | Joined phone string
  | JoinFailed phone string
  | LeaveCanceled
  | LeaveNotConnected phone string
  | LeftChannel phone string
  | LeaveFloodWait phone string nat
  | LeaveFailed phone string
  | ReactCanceled
  | Reacted phone string string
  | ReactFailed phone string
  | ViewCanceled
  | Viewed phone string
  | ViewFailed phone string
  | NoAddaccountSession
  | InvalidPhoneFormat
  | AlreadyAdded phone
  | ConnectFailed
  | OtpSent phone
  | TooManyRequests nat
  | SendOtpFailed
  | NoAccounts
  | InfoLines "info_line list"
  | AskCount nat
  | AskChannelLinks
  | AskMessageLinks
  | InvalidCount nat
  | InvalidNumber
  | AllLinksInvalid
  | NoValidMessageLinks
  | SkippedLinks "string list"
  | Results "(string \<times> result) list"

text \<open>
  The state the remote calls work on: the event-loop time, \<^verbatim>\<open>flood_wait_until\<close>,
  the remote calls issued so far, the number of answers and of random values
  consumed, and the replies sent to the operator. Sending a reply is taken to succeed.
\<close>

record world =
  clock :: real
  flood_wait_until :: "phone \<rightharpoonup> real"
  issued :: "call list"
  answered :: nat
  drawn :: nat
  replies :: "reply list"

definition reply :: "reply \<Rightarrow> world \<Rightarrow> world" where
  "reply r w = w\<lparr>replies := replies w @ [r]\<rparr>"

text \<open>\<^verbatim>\<open>await asyncio.sleep(d)\<close>: a delay that is not positive does not wait.\<close>

definition sleep :: "real \<Rightarrow> world \<Rightarrow> world" where
  "sleep d w = w\<lparr>clock := clock w + max 0 d\<rparr>"

text \<open>
  A remote call of the client of \<open>phone\<close>: it is logged with the time of issue, takes
  the time the environment says, and raises or returns what the environment says.
\<close>

definition invoke :: "environment \<Rightarrow> phone \<Rightarrow> request \<Rightarrow> world \<Rightarrow> (exn + nat) \<times> world" where
  "invoke env phone r w =
     (snd (answer env (answered w)),
      w\<lparr>clock := clock w + real (fst (answer env (answered w))),
        issued := issued w @ [\<lparr>call_time = clock w, call_phone = phone, call_request = r,
                                 call_wait_until = flood_wait_until w phone\<rparr>],
        answered := Suc (answered w)\<rparr>)"

text \<open>
  \<^verbatim>\<open>if not client.is_connected(): await client.connect()\<close>, and
  \<^verbatim>\<open>client.is_connected()\<close> alone: whether it went through is an answer of the
  environment. Opening the transport is not a call to the platform and is not logged.
\<close>

definition connect :: "environment \<Rightarrow> world \<Rightarrow> bool \<times> world" where
  "connect env w =
     ((case snd (answer env (answered w)) of Inl e \<Rightarrow> False | Inr v \<Rightarrow> True),
      w\<lparr>clock := clock w + real (fst (answer env (answered w))),
        answered := Suc (answered w)\<rparr>)"

text \<open>
  \<^verbatim>\<open>ensure_connected\<close> (lines 197 to 208), with its default \<^verbatim>\<open>retries=3\<close> and
  \<^verbatim>\<open>delay=5\<close>, which every caller uses. The third argument of the loop is the number
  of attempts left; \<^verbatim>\<open>attempt < retries - 1\<close> says that one more is left.
\<close>

fun ensure_connected_attempts :: "environment \<Rightarrow> real \<Rightarrow> nat \<Rightarrow> world \<Rightarrow> bool \<times> world" where
  "ensure_connected_attempts env delay 0 w = (False, w)"
| "ensure_connected_attempts env delay (Suc left) w =
     (case connect env w of
        (True, w1) \<Rightarrow> (True, w1)
      | (False, w1) \<Rightarrow>
          ensure_connected_attempts env delay left (if 0 < left then sleep delay w1 else w1))"

definition ensure_connected :: "environment \<Rightarrow> client \<Rightarrow> phone \<Rightarrow> world \<Rightarrow> bool \<times> world" where
  "ensure_connected env client phone w = ensure_connected_attempts env 5 3 w"

text \<open>
  \<^verbatim>\<open>respect_flood_limit\<close> (lines 210 to 217):
  \<^verbatim>\<open>
  async def respect_flood_limit(phone, delay=0):
      if phone in flood_wait_until:
          wait_until = flood_wait_until[phone]
          current_time = asyncio.get_event_loop().time()
          if current_time < wait_until:
              await asyncio.sleep(wait_until - current_time)
      if delay > 0:
          await asyncio.sleep(delay)
  \<close>
\<close>

definition respect_flood_limit :: "phone \<Rightarrow> real \<Rightarrow> world \<Rightarrow> world" where
  "respect_flood_limit phone delay w =
     (let w1 = (case flood_wait_until w phone of
                  None \<Rightarrow> w
                | Some wait_until \<Rightarrow>
                    if clock w < wait_until then sleep (wait_until - clock w) w else w)
      in if 0 < delay then sleep delay w1 else w1)"

text \<open>
  The statement \<^verbatim>\<open>flood_wait_until[phone] = asyncio.get_event_loop().time() + e.seconds\<close>
  of the handlers of \<^verbatim>\<open>FloodWaitError\<close> (lines 811, 1003, 1054, 1344, 1477; line 1399
  adds a random value to the seconds first).
\<close>

definition register_flood_wait :: "phone \<Rightarrow> real \<Rightarrow> world \<Rightarrow> world" where
  "register_flood_wait phone seconds w =
     w\<lparr>flood_wait_until := (flood_wait_until w)(phone \<mapsto> clock w + seconds)\<rparr>"

section \<open>Joining a channel\<close>

text \<open>
  The resolution of the channel in the public branch of \<^verbatim>\<open>join_channel\<close> (lines 1327
  to 1330): the name is tried as it is, and with an \<^verbatim>\<open>@\<close> in front when that
  raises \<^verbatim>\<open>ValueError\<close>.
  (the formatted string of the source is written as a concatenation)
  \<^verbatim>\<open>
  try:
      channel = await client.get_entity(channel_username)
  except ValueError:
      channel = await client.get_entity("@" + channel_username)
  \<close>
\<close>

definition join_channel_entity ::
  "environment \<Rightarrow> phone \<Rightarrow> string \<Rightarrow> world \<Rightarrow> (exn + nat) \<times> world" where
  "join_channel_entity env phone channel_username w =
     (case invoke env phone (GetEntity (ByName channel_username)) w of
        (Inl ValueError, w1) \<Rightarrow>
          invoke env phone (GetEntity (ByName (CHR ''@'' # channel_username))) w1
      | (result, w1) \<Rightarrow> (result, w1))"

text \<open>
  The private branch (lines 1302 to 1318), up to the handlers of the outer
  \<^verbatim>\<open>try\<close>: an exception it does not handle is passed on. The link starts with
  \<^verbatim>\<open>https://t.me/+\<close>, so \<^verbatim>\<open>invite_link.split('+')[1]\<close> is the text after that
  prefix up to the next plus sign.
\<close>

definition join_channel_private ::
  "config \<Rightarrow> environment \<Rightarrow> phone \<Rightarrow> string \<Rightarrow> world \<Rightarrow> (exn + bool) \<times> world" where
  "join_channel_private cfg env phone invite_link w =
     (let invite_hash = takeWhile (\<lambda>c. c \<noteq> CHR ''+'') (drop 14 invite_link)
      in if invite_hash = [] then (Inr False, w)
         else (case invoke env phone (ImportChatInviteRequest invite_hash) w of
                 (Inr v, w1) \<Rightarrow> (Inr True, respect_flood_limit phone (JOIN_DELAY cfg) w1)
               | (Inl e, w1) \<Rightarrow>
                   if e = InviteHashExpiredError \<or> e = InviteHashInvalidError
                      \<or> e = ChannelsTooMuchError
                   then (Inr False, w1)
                   else if e = UserAlreadyParticipantError then (Inr True, w1)
                   else (Inl e, w1)))"

text \<open>
  The public branch (lines 1320 to 1341): its own handlers catch every exception, a
  \<^verbatim>\<open>FloodWaitError\<close> too. \<^verbatim>\<open>invite_link.split('/')[-1]\<close> is the text after the
  last slash.
\<close>

definition join_channel_public ::
  "config \<Rightarrow> environment \<Rightarrow> phone \<Rightarrow> string \<Rightarrow> world \<Rightarrow> bool \<times> world" where
  "join_channel_public cfg env phone invite_link w =
     (let channel_username = rev (takeWhile (\<lambda>c. c \<noteq> CHR ''/'') (rev invite_link))
      in if channel_username = [] then (False, w)
         else (case join_channel_entity env phone channel_username w of
                 (Inl e, w1) \<Rightarrow> (e = UserAlreadyParticipantError, w1)
               | (Inr channel, w1) \<Rightarrow>
                   (case invoke env phone (JoinChannelRequest channel) w1 of
                      (Inr v, w2) \<Rightarrow> (True, respect_flood_limit phone (JOIN_DELAY cfg) w2)
                    | (Inl e, w2) \<Rightarrow> (e = UserAlreadyParticipantError, w2))))"

text \<open>\<^verbatim>\<open>join_channel\<close> (lines 1295 to 1349).\<close>

definition join_channel ::
  "config \<Rightarrow> environment \<Rightarrow> client \<Rightarrow> string \<Rightarrow> phone \<Rightarrow> world \<Rightarrow> bool \<times> world" where
  "join_channel cfg env client invite_link phone w =
     (case ensure_connected env client phone w of
        (False, w1) \<Rightarrow> (False, w1)
      | (True, w1) \<Rightarrow>
          if startswith invite_link ''https://t.me/+''
          then (case join_channel_private cfg env phone invite_link
                       (respect_flood_limit phone 0 w1) of
                  (Inr joined, w2) \<Rightarrow> (joined, w2)
                | (Inl (FloodWaitError seconds), w2) \<Rightarrow>
                    (False, register_flood_wait phone (real seconds) w2)
                | (Inl e, w2) \<Rightarrow> (False, w2))
          else join_channel_public cfg env phone invite_link (respect_flood_limit phone 0 w1))"

section \<open>Reactions and views\<close>

text \<open>
  The resolution of the chat in \<^verbatim>\<open>send_reaction\<close> (lines 1365 to 1372):
  \<^verbatim>\<open>
  if chat_identifier.startswith('-100'):
      chat_id = int(chat_identifier)
      entity = await client.get_entity(chat_id)
  else:
      try:
          entity = await client.get_entity(chat_identifier)
      except ValueError:
          entity = await client.get_entity("@" + chat_identifier)
  \<close>
\<close>

definition send_reaction_entity ::
  "environment \<Rightarrow> phone \<Rightarrow> string \<Rightarrow> world \<Rightarrow> (exn + nat) \<times> world" where
  "send_reaction_entity env phone chat_identifier w =
     (if startswith chat_identifier ''-100''
      then (case py_int chat_identifier of
              None \<Rightarrow> (Inl ValueError, w)
            | Some chat_id \<Rightarrow> invoke env phone (GetEntity (ById chat_id)) w)
      else (case invoke env phone (GetEntity (ByName chat_identifier)) w of
              (Inl ValueError, w1) \<Rightarrow>
                invoke env phone (GetEntity (ByName (CHR ''@'' # chat_identifier))) w1
            | (result, w1) \<Rightarrow> (result, w1)))"

text \<open>
  The resolution of the chat in \<^verbatim>\<open>send_view\<close> (lines 1459 to 1463):
  \<^verbatim>\<open>
  if chat_identifier.startswith('-100'):
      chat_id = int(chat_identifier)
      chat = await client.get_entity(chat_id)
  else:
      chat = await client.get_entity("@" + chat_identifier
                 if not chat_identifier.startswith('@') else chat_identifier)
  \<close>
\<close>

definition send_view_entity ::
  "environment \<Rightarrow> phone \<Rightarrow> string \<Rightarrow> world \<Rightarrow> (exn + nat) \<times> world" where
  "send_view_entity env phone chat_identifier w =
     (if startswith chat_identifier ''-100''
      then (case py_int chat_identifier of
              None \<Rightarrow> (Inl ValueError, w)
            | Some chat_id \<Rightarrow> invoke env phone (GetEntity (ById chat_id)) w)
      else invoke env phone
             (GetEntity (ByName (if \<not> startswith chat_identifier ''@''
                                 then CHR ''@'' # chat_identifier else chat_identifier))) w)"

text \<open>
  The attempts of \<^verbatim>\<open>send_reaction\<close> (lines 1379 to 1408); the last argument before
  the world is the number of attempts left, and \<^verbatim>\<open>attempt == retries - 1\<close> says
  that none is left after this one. \<^verbatim>\<open>join_channel\<close> raises nothing, so the
  handler around it is never entered.
\<close>

fun send_reaction_attempts ::
  "config \<Rightarrow> environment \<Rightarrow> client \<Rightarrow> phone \<Rightarrow> string \<Rightarrow> nat \<Rightarrow> nat \<Rightarrow> string \<Rightarrow> nat \<Rightarrow> world
    \<Rightarrow> string option \<times> world" where
  "send_reaction_attempts cfg env client phone chat_identifier chat message_id emoji 0 w =
     (None, w)"
| "send_reaction_attempts cfg env client phone chat_identifier chat message_id emoji (Suc left) w =
     (case invoke env phone (SendReactionRequest chat message_id emoji) w of
        (Inr v, w1) \<Rightarrow> (Some emoji, w1)
      | (Inl UserNotParticipantError, w1) \<Rightarrow>
          send_reaction_attempts cfg env client phone chat_identifier chat message_id emoji left
            (snd (join_channel cfg env client (''https://t.me/'' @ chat_identifier) phone w1))
      | (Inl ReactionInvalidError, w1) \<Rightarrow>
          if left = 0 then (None, w1)
          else send_reaction_attempts cfg env client phone chat_identifier chat message_id emoji
                 left w1
      | (Inl (FloodWaitError seconds), w1) \<Rightarrow>
          (let wait_time = real seconds + uniform env (drawn w1);
               w2 = sleep wait_time
                      (register_flood_wait phone wait_time (w1\<lparr>drawn := Suc (drawn w1)\<rparr>))
           in if left = 0 then (None, w2)
              else send_reaction_attempts cfg env client phone chat_identifier chat message_id
                     emoji left w2)
      | (Inl e, w1) \<Rightarrow>
          if left = 0 then (None, w1)
          else send_reaction_attempts cfg env client phone chat_identifier chat message_id emoji
                 left (sleep 2 w1))"

text \<open>
  \<^verbatim>\<open>send_reaction\<close> (lines 1351 to 1411; the statements after line 1411 cannot be
  reached), with its default \<^verbatim>\<open>retries=3\<close>. It returns the emoji or \<^verbatim>\<open>None\<close>.
\<close>

definition send_reaction ::
  "config \<Rightarrow> environment \<Rightarrow> client \<Rightarrow> string \<Rightarrow> phone \<Rightarrow> string \<Rightarrow> world
    \<Rightarrow> string option \<times> world" where
  "send_reaction cfg env client message_link phone emoji w =
     (case extract_message_info message_link of
        None \<Rightarrow> (None, w)
      | Some (chat_identifier, message_id) \<Rightarrow>
          if chat_identifier = [] \<or> message_id = 0 then (None, w)
          else (case ensure_connected env client phone w of
                  (False, w1) \<Rightarrow> (None, w1)
                | (True, w1) \<Rightarrow>
                    (case send_reaction_entity env phone chat_identifier
                            (respect_flood_limit phone 0 w1) of
                       (Inl e, w2) \<Rightarrow> (None, w2)
                     | (Inr chat, w2) \<Rightarrow>
                         send_reaction_attempts cfg env client phone chat_identifier chat
                           message_id emoji 3 w2)))"

text \<open>\<^verbatim>\<open>send_view\<close> (lines 1447 to 1482).\<close>

definition send_view ::
  "environment \<Rightarrow> client \<Rightarrow> string \<Rightarrow> phone \<Rightarrow> world \<Rightarrow> bool \<times> world" where
  "send_view env client message_link phone w =
     (case extract_message_info message_link of
        None \<Rightarrow> (False, w)
      | Some (chat_identifier, message_id) \<Rightarrow>
          if chat_identifier = [] \<or> message_id = 0 then (False, w)
          else (case ensure_connected env client phone w of
                  (False, w1) \<Rightarrow> (False, w1)
                | (True, w1) \<Rightarrow>
                    (case send_view_entity env phone chat_identifier
                            (respect_flood_limit phone 0 w1) of
                       (Inl (FloodWaitError seconds), w2) \<Rightarrow>
                         (False, register_flood_wait phone (real seconds) w2)
                     | (Inl e, w2) \<Rightarrow> (False, w2)
                     | (Inr chat, w2) \<Rightarrow>
                         (case invoke env phone (GetMessagesViewsRequest chat message_id) w2 of
                            (Inl (FloodWaitError seconds), w3) \<Rightarrow>
                              (False, register_flood_wait phone (real seconds) w3)
                          | (Inl e, w3) \<Rightarrow> (False, w3)
                          | (Inr v, w3) \<Rightarrow> (True, w3)))))"

section \<open>The batch executors\<close>

text \<open>
  The executors read \<^verbatim>\<open>user_clients\<close>, here the argument \<open>pool\<close>. Those wrapped
  in \<^verbatim>\<open>access_control\<close> are modelled as an owner calls them: the wrapper calls the
  function of an owner as it is (lines 156 and 157). The dictionary
  \<^verbatim>\<open>cancellation_events\<close>, through which the handler of \<^verbatim>\<open>/cancel\<close> reaches the
  token of the batch, is represented by what the token answers when the loop reads it.

  The local variables \<^verbatim>\<open>success\<close>, \<^verbatim>\<open>success_list\<close> and \<^verbatim>\<open>failed_list\<close> of the
  four executors.
\<close>

record tally =
  success :: nat
  success_list :: "entry list"
  failed_list :: "entry list"

definition succeeded :: "entry \<Rightarrow> tally \<Rightarrow> tally" where
  "succeeded e t = t\<lparr>success := success t + 1, success_list := success_list t @ [e]\<rparr>"

definition failed :: "entry \<Rightarrow> tally \<Rightarrow> tally" where
  "failed e t = t\<lparr>failed_list := failed_list t @ [e]\<rparr>"

definition no_tally :: tally where
  "no_tally = \<lparr>success = 0, success_list = [], failed_list = []\<rparr>"

text \<open>How the loop over the selected accounts ended.\<close>

datatype ending = Completed | Stopped | Raised exn

text \<open>
  The loop the four executors share (lines 760 to 763, 793 to 796, 841 to 844 and 891
  to 894):
  \<^verbatim>\<open>
  for phone, (client, _) in selected:
      if event_obj.is_set():
          await event.reply("... canceled successfully.")
          return "... canceled successfully."
      ...
  \<close>
  \<open>is_set i\<close> is what \<^verbatim>\<open>event_obj.is_set()\<close> answers before the account of index
  \<open>i\<close>: the token is set by the handler of \<^verbatim>\<open>/cancel\<close>, which runs while the
  executor waits. The loop returns how it ended, the accounts it has not taken from
  \<^verbatim>\<open>selected\<close>, and the local variables and the world at that point.
\<close>

fun for_accounts ::
  "(nat \<Rightarrow> bool) \<Rightarrow> reply \<Rightarrow> (account \<Rightarrow> 's \<Rightarrow> world \<Rightarrow> exn option \<times> 's \<times> world)
    \<Rightarrow> nat \<Rightarrow> account list \<Rightarrow> 's \<Rightarrow> world \<Rightarrow> ending \<times> account list \<times> 's \<times> world" where
  "for_accounts is_set canceled body i [] s w = (Completed, [], s, w)"
| "for_accounts is_set canceled body i (account # rest) s w =
     (if is_set i then (Stopped, account # rest, s, reply canceled w)
      else (case body account s w of
              (Some e, s1, w1) \<Rightarrow> (Raised e, rest, s1, w1)
            | (None, s1, w1) \<Rightarrow> for_accounts is_set canceled body (Suc i) rest s1 w1))"

subsection \<open>Join\<close>

text \<open>
  The body of the loop of \<^verbatim>\<open>process_join\<close> (lines 764 to 777). The variable
  \<^verbatim>\<open>result\<close> is assigned inside the loop, so the locals are the tally and
  \<^verbatim>\<open>result\<close>, unbound before the first account.
\<close>

definition process_join_account ::
  "config \<Rightarrow> environment \<Rightarrow> nat \<Rightarrow> string \<Rightarrow> account \<Rightarrow> tally \<times> result option \<Rightarrow> world
    \<Rightarrow> exn option \<times> (tally \<times> result option) \<times> world" where
  "process_join_account cfg env count link account locals w =
     (case account of (phone, client, session_string) \<Rightarrow>
        (case join_channel cfg env client link phone w of
           (joined, w1) \<Rightarrow>
             (let t = (if joined then succeeded (JoinedEntry phone) (fst locals)
                       else failed (JoinFailedEntry phone) (fst locals));
                  w2 = reply (if joined then Joined phone link else JoinFailed phone link) w1
              in (None, (t, Some (Summary (success t) count (success_list t) (failed_list t))),
                  w2))))"

text \<open>
  \<^verbatim>\<open>process_join\<close> (lines 750 to 780). \<^verbatim>\<open>return result\<close> raises
  \<^verbatim>\<open>UnboundLocalError\<close> when no account was selected.
\<close>

definition process_join_loop ::
  "config \<Rightarrow> environment \<Rightarrow> (nat \<Rightarrow> bool) \<Rightarrow> account list \<Rightarrow> nat \<Rightarrow> string \<Rightarrow> world
    \<Rightarrow> ending \<times> account list \<times> (tally \<times> result option) \<times> world" where
  "process_join_loop cfg env is_set pool count link w =
     for_accounts is_set JoinCanceled (process_join_account cfg env count link) 0
       (take count pool) (no_tally, None) w"

definition process_join ::
  "config \<Rightarrow> environment \<Rightarrow> (nat \<Rightarrow> bool) \<Rightarrow> account list \<Rightarrow> nat \<Rightarrow> string \<Rightarrow> world
    \<Rightarrow> (exn + result) \<times> world" where
  "process_join cfg env is_set pool count link w =
     (case process_join_loop cfg env is_set pool count link w of
        (Stopped, remaining, locals, w1) \<Rightarrow> (Inr Canceled, w1)
      | (Raised e, remaining, locals, w1) \<Rightarrow> (Inl e, w1)
      | (Completed, remaining, locals, w1) \<Rightarrow>
          (case snd locals of
             None \<Rightarrow> (Inl UnboundLocalError, w1)
           | Some r \<Rightarrow> (Inr r, w1)))"

subsection \<open>Leave\<close>

text \<open>The handlers of lines 810 to 818.\<close>

definition process_leave_failed ::
  "string \<Rightarrow> phone \<Rightarrow> exn \<Rightarrow> tally \<Rightarrow> world \<Rightarrow> exn option \<times> tally \<times> world" where
  "process_leave_failed link phone e t w =
     (case e of
        FloodWaitError seconds \<Rightarrow>
          (None, failed (FloodWaitEntry phone seconds) t,
           reply (LeaveFloodWait phone link seconds)
             (register_flood_wait phone (real seconds) w))
      | other \<Rightarrow> (None, failed (LeaveFailedEntry phone) t, reply (LeaveFailed phone link) w))"

text \<open>The body of the loop of \<^verbatim>\<open>process_leave\<close> (lines 797 to 818).\<close>

definition process_leave_account ::
  "environment \<Rightarrow> string \<Rightarrow> account \<Rightarrow> tally \<Rightarrow> world \<Rightarrow> exn option \<times> tally \<times> world" where
  "process_leave_account env link account t w =
     (case account of (phone, client, session_string) \<Rightarrow>
        (case ensure_connected env client phone w of
           (False, w1) \<Rightarrow>
             (None, failed (NotConnectedEntry phone) t, reply (LeaveNotConnected phone link) w1)
         | (True, w1) \<Rightarrow>
             (case invoke env phone (GetEntity (ByName link)) (respect_flood_limit phone 0 w1) of
                (Inl e, w2) \<Rightarrow> process_leave_failed link phone e t w2
              | (Inr entity, w2) \<Rightarrow>
                  (case invoke env phone (LeaveChannelRequest entity) w2 of
                     (Inl e, w3) \<Rightarrow> process_leave_failed link phone e t w3
                   | (Inr v, w3) \<Rightarrow>
                       (None, succeeded (LeftEntry phone) t,
                        respect_flood_limit phone 0 (reply (LeftChannel phone link) w3))))))"

text \<open>\<^verbatim>\<open>process_leave\<close> (lines 783 to 826).\<close>

definition process_leave_loop ::
  "environment \<Rightarrow> (nat \<Rightarrow> bool) \<Rightarrow> account list \<Rightarrow> nat \<Rightarrow> string \<Rightarrow> world
    \<Rightarrow> ending \<times> account list \<times> tally \<times> world" where
  "process_leave_loop env is_set pool count link w =
     for_accounts is_set LeaveCanceled (process_leave_account env link) 0
       (take count pool) no_tally w"

definition summary :: "nat \<Rightarrow> ending \<times> account list \<times> tally \<times> world \<Rightarrow> (exn + result) \<times> world" where
  "summary count run =
     (case run of
        (Stopped, remaining, t, w1) \<Rightarrow> (Inr Canceled, w1)
      | (Raised e, remaining, t, w1) \<Rightarrow> (Inl e, w1)
      | (Completed, remaining, t, w1) \<Rightarrow>
          (Inr (Summary (success t) count (success_list t) (failed_list t)), w1))"

definition process_leave ::
  "environment \<Rightarrow> (nat \<Rightarrow> bool) \<Rightarrow> account list \<Rightarrow> nat \<Rightarrow> string \<Rightarrow> world
    \<Rightarrow> (exn + result) \<times> world" where
  "process_leave env is_set pool count link w =
     summary count (process_leave_loop env is_set pool count link w)"

subsection \<open>React\<close>

text \<open>
  \<^verbatim>\<open>random.choice(seq)\<close> raises \<^verbatim>\<open>IndexError\<close> on an empty sequence; otherwise the
  random integer \<open>r\<close> selects the element.
\<close>

definition choice :: "'a list \<Rightarrow> nat \<Rightarrow> exn + 'a" where
  "choice xs r = (if xs = [] then Inl IndexError else Inr (xs ! (r mod length xs)))"

text \<open>
  The choice of the emoji (lines 849 to 858), from the set of the emojis the account
  has used on the link; it returns the choice and the set as it is afterwards:
  \<^verbatim>\<open>
  unused_emojis = [e for e in EMOJIS if e not in reaction_history[link][phone]]
  if not unused_emojis:
      reaction_history[link][phone].clear()
      unused_emojis = EMOJIS.copy()
  selected_emoji = random.choice(unused_emojis)
  \<close>
\<close>

definition select_emoji :: "string list \<Rightarrow> string set \<Rightarrow> nat \<Rightarrow> (exn + string) \<times> string set" where
  "select_emoji emojis used r =
     (let unused_emojis = filter (\<lambda>e. e \<notin> used) emojis
      in if unused_emojis = [] then (choice emojis r, {})
         else (choice unused_emojis r, used))"

text \<open>
  The body of the loop of \<^verbatim>\<open>process_react\<close> (lines 846 to 870). The locals are
  \<^verbatim>\<open>reaction_history[link]\<close>, a dictionary from the phone to the set of used emojis,
  and the tally. \<^verbatim>\<open>if emoji_used:\<close> holds for a string that is not empty.
\<close>

definition process_react_account ::
  "config \<Rightarrow> environment \<Rightarrow> string \<Rightarrow> account \<Rightarrow> (phone \<rightharpoonup> string set) \<times> tally \<Rightarrow> world
    \<Rightarrow> exn option \<times> ((phone \<rightharpoonup> string set) \<times> tally) \<times> world" where
  "process_react_account cfg env link account locals w =
     (case account of (phone, client, session_string) \<Rightarrow>
        (case select_emoji (EMOJIS cfg)
                (case fst locals phone of None \<Rightarrow> {} | Some used \<Rightarrow> used)
                (pick env (drawn w)) of
           (Inl e, used1) \<Rightarrow>
             (Some e, ((fst locals)(phone \<mapsto> used1), snd locals), w\<lparr>drawn := Suc (drawn w)\<rparr>)
         | (Inr selected_emoji, used1) \<Rightarrow>
             (case send_reaction cfg env client link phone selected_emoji
                     (w\<lparr>drawn := Suc (drawn w)\<rparr>) of
                (Some emoji_used, w1) \<Rightarrow>
                  if emoji_used \<noteq> []
                  then (None,
                        ((fst locals)(phone \<mapsto> insert emoji_used used1),
                         succeeded (ReactedEntry phone emoji_used) (snd locals)),
                        respect_flood_limit phone (REACT_DELAY cfg)
                          (reply (Reacted phone link emoji_used) w1))
                  else (None,
                        ((fst locals)(phone \<mapsto> used1),
                         failed (ReactFailedEntry phone) (snd locals)),
                        respect_flood_limit phone (REACT_DELAY cfg)
                          (reply (ReactFailed phone link) w1))
              | (None, w1) \<Rightarrow>
                  (None,
                   ((fst locals)(phone \<mapsto> used1), failed (ReactFailedEntry phone) (snd locals)),
                   respect_flood_limit phone (REACT_DELAY cfg)
                     (reply (ReactFailed phone link) w1)))))"

text \<open>
  \<^verbatim>\<open>process_react\<close> (lines 828 to 879); it also returns \<^verbatim>\<open>reaction_history\<close> as
  it has left it.
\<close>

definition process_react_loop ::
  "config \<Rightarrow> environment \<Rightarrow> (nat \<Rightarrow> bool) \<Rightarrow> account list \<Rightarrow> (string \<rightharpoonup> (phone \<rightharpoonup> string set))
    \<Rightarrow> nat \<Rightarrow> string \<Rightarrow> world
    \<Rightarrow> ending \<times> account list \<times> ((phone \<rightharpoonup> string set) \<times> tally) \<times> world" where
  "process_react_loop cfg env is_set pool history count link w =
     for_accounts is_set ReactCanceled (process_react_account cfg env link) 0
       (take count pool)
       ((case history link of None \<Rightarrow> Map.empty | Some ledger \<Rightarrow> ledger), no_tally) w"

definition process_react ::
  "config \<Rightarrow> environment \<Rightarrow> (nat \<Rightarrow> bool) \<Rightarrow> account list \<Rightarrow> (string \<rightharpoonup> (phone \<rightharpoonup> string set))
    \<Rightarrow> nat \<Rightarrow> string \<Rightarrow> world
    \<Rightarrow> (exn + result) \<times> (string \<rightharpoonup> (phone \<rightharpoonup> string set)) \<times> world" where
  "process_react cfg env is_set pool history count link w =
     (case process_react_loop cfg env is_set pool history count link w of
        (how, remaining, locals, w1) \<Rightarrow>
          (fst (summary count (how, remaining, snd locals, w1)),
           history(link \<mapsto> fst locals), w1))"

subsection \<open>View\<close>

text \<open>
  The body of the loop of \<^verbatim>\<open>process_view\<close> (lines 895 to 908). \<^verbatim>\<open>send_view\<close>
  raises nothing, so the handler of line 905 is never entered.
\<close>

definition process_view_account ::
  "config \<Rightarrow> environment \<Rightarrow> string \<Rightarrow> account \<Rightarrow> tally \<Rightarrow> world \<Rightarrow> exn option \<times> tally \<times> world" where
  "process_view_account cfg env link account t w =
     (case account of (phone, client, session_string) \<Rightarrow>
        (case send_view env client link phone w of
           (True, w1) \<Rightarrow>
             (None, succeeded (ViewedEntry phone) t,
              respect_flood_limit phone (VIEW_DELAY cfg) (reply (Viewed phone link) w1))
         | (False, w1) \<Rightarrow>
             (None, failed (ViewFailedEntry phone) t,
              respect_flood_limit phone (VIEW_DELAY cfg) (reply (ViewFailed phone link) w1))))"

text \<open>\<^verbatim>\<open>process_view\<close> (lines 881 to 916).\<close>

definition process_view_loop ::
  "config \<Rightarrow> environment \<Rightarrow> (nat \<Rightarrow> bool) \<Rightarrow> account list \<Rightarrow> nat \<Rightarrow> string \<Rightarrow> world
    \<Rightarrow> ending \<times> account list \<times> tally \<times> world" where
  "process_view_loop cfg env is_set pool count link w =
     for_accounts is_set ViewCanceled (process_view_account cfg env link) 0
       (take count pool) no_tally w"

definition process_view ::
  "config \<Rightarrow> environment \<Rightarrow> (nat \<Rightarrow> bool) \<Rightarrow> account list \<Rightarrow> nat \<Rightarrow> string \<Rightarrow> world
    \<Rightarrow> (exn + result) \<times> world" where
  "process_view cfg env is_set pool count link w =
     summary count (process_view_loop cfg env is_set pool count link w)"

section \<open>The account listing\<close>

text \<open>
  \<^verbatim>\<open>info\<close> (lines 1200 to 1222), for an owner (the wrapper \<^verbatim>\<open>access_control\<close> calls
  the handler of an owner as it is). The second argument of the loop is the number of
  the line, which \<^verbatim>\<open>enumerate(..., 1)\<close> counts from one.
\<close>

fun info_accounts ::
  "environment \<Rightarrow> nat \<Rightarrow> account list \<Rightarrow> info_line list \<Rightarrow> world \<Rightarrow> info_line list \<times> world" where
  "info_accounts env i [] info_lines w = (info_lines, w)"
| "info_accounts env i ((phone, client, session_string) # rest) info_lines w =
     (case ensure_connected env client phone w of
        (False, w1) \<Rightarrow> info_accounts env (Suc i) rest (info_lines @ [NotConnectedLine i phone]) w1
      | (True, w1) \<Rightarrow>
          (case invoke env phone GetMe w1 of
             (Inl e, w2) \<Rightarrow> info_accounts env (Suc i) rest (info_lines @ [ErrorLine i phone]) w2
           | (Inr me, w2) \<Rightarrow>
               (case connect env w2 of
                  (status, w3) \<Rightarrow>
                    info_accounts env (Suc i) rest
                      (info_lines @ [AccountLine i phone status me]) w3)))"

definition info :: "environment \<Rightarrow> account list \<Rightarrow> world \<Rightarrow> world" where
  "info env pool w =
     (if pool = [] then reply NoAccounts w
      else (case info_accounts env 1 pool [] w of
              (info_lines, w1) \<Rightarrow> reply (InfoLines info_lines) w1))"

section \<open>Conversations\<close>

text \<open>
  An entry of \<^verbatim>\<open>user_states\<close>: the keys \<^verbatim>\<open>command\<close>, \<^verbatim>\<open>state\<close>,
  \<^verbatim>\<open>timestamp\<close>, \<^verbatim>\<open>count\<close>, \<^verbatim>\<open>phone\<close>, \<^verbatim>\<open>client\<close> and
  \<^verbatim>\<open>phone_code_hash\<close> of the dictionary, an absent key being \<^const>\<open>None\<close>. The
  session file and the session string, which belong to the persistence of sessions,
  are left out.
\<close>

record user_state =
  st_command :: string
  st_state :: string
  st_timestamp :: real
  st_count :: "nat option"
  st_phone :: "phone option"
  st_client :: "client option"
  st_phone_code_hash :: "nat option"

text \<open>The global variables of the bot, with the world of the remote calls.\<close>

record bot =
  user_states :: "int \<rightharpoonup> user_state"
  user_clients :: "account list"
  reaction_history :: "string \<rightharpoonup> (phone \<rightharpoonup> string set)"
  known_users :: "int set"
  world :: world

definition say :: "reply \<Rightarrow> bot \<Rightarrow> bot" where
  "say r b = b\<lparr>world := reply r (world b)\<rparr>"

text \<open>
  The handlers below are those of an owner: \<^verbatim>\<open>access_control\<close> calls the handler of
  an owner as it is (lines 156 and 157).

  \<^verbatim>\<open>start_count_link_command\<close> (lines 425 to 436) and
  \<^verbatim>\<open>start_link_only_command\<close> (lines 439 to 458).
\<close>

definition start_count_link_command :: "int \<Rightarrow> string \<Rightarrow> bot \<Rightarrow> bot" where
  "start_count_link_command sender_id cmd b =
     (let b1 = b\<lparr>user_states := (user_states b)(sender_id \<mapsto>
                   \<lparr>st_command = cmd, st_state = ''counting'',
                    st_timestamp = clock (world b), st_count = None, st_phone = None,
                    st_client = None, st_phone_code_hash = None\<rparr>)\<rparr>
      in if length (user_clients b) = 0 then say NoAccounts b1
         else say (AskCount (length (user_clients b))) b1)"

definition start_link_only_command :: "int \<Rightarrow> string \<Rightarrow> bot \<Rightarrow> bot" where
  "start_link_only_command sender_id cmd b =
     (if user_clients b = [] then say NoAccounts b
      else say (if cmd = ''mega_join'' \<or> cmd = ''mega_leave'' then AskChannelLinks
                else AskMessageLinks)
             (b\<lparr>user_states := (user_states b)(sender_id \<mapsto>
                   \<lparr>st_command = cmd,
                    st_state = (if cmd = ''mega_join'' \<or> cmd = ''mega_leave''
                                then ''invite_link'' else ''message_link''),
                    st_timestamp = clock (world b),
                    st_count = Some (length (user_clients b)), st_phone = None,
                    st_client = None, st_phone_code_hash = None\<rparr>)\<rparr>))"

text \<open>
  \<^verbatim>\<open>receive_number\<close> (lines 472 to 492). The assignment to the entry of the sender
  raises \<^verbatim>\<open>KeyError\<close> when there is none.
\<close>

definition receive_number :: "int \<Rightarrow> string \<Rightarrow> bot \<Rightarrow> exn option \<times> bot" where
  "receive_number sender_id text b =
     (case py_int text of
        None \<Rightarrow> (None, say InvalidNumber b)
      | Some n \<Rightarrow>
          if n < 1 \<or> int (length (user_clients b)) < n
          then (None, say (InvalidCount (length (user_clients b))) b)
          else (case user_states b sender_id of
                  None \<Rightarrow> (Some KeyError, b)
                | Some st \<Rightarrow>
                    (let step = (if st_command st = ''join'' \<or> st_command st = ''leave''
                                 then ''invite_link'' else ''message_link'')
                     in (None,
                         say (if step = ''invite_link'' then AskChannelLinks else AskMessageLinks)
                           (b\<lparr>user_states := (user_states b)(sender_id \<mapsto>
                                 st\<lparr>st_count := Some (nat n), st_state := step,
                                    st_timestamp := clock (world b)\<rparr>)\<rparr>)))))"

text \<open>
  The loops over the valid links of \<^verbatim>\<open>receive_invite_link\<close> (lines 511 to 517) and
  \<^verbatim>\<open>receive_msg_link\<close> (lines 547 to 553) run one batch for each link; the second
  argument is the index of the link. An exception of a batch leaves the handler.
\<close>

fun for_links ::
  "(nat \<Rightarrow> string \<Rightarrow> 'r \<Rightarrow> exn option \<times> 'r) \<Rightarrow> nat \<Rightarrow> string list \<Rightarrow> 'r \<Rightarrow> exn option \<times> 'r" where
  "for_links body j [] r = (None, r)"
| "for_links body j (link # links) r =
     (case body j link r of
        (Some e, r1) \<Rightarrow> (Some e, r1)
      | (None, r1) \<Rightarrow> for_links body (Suc j) links r1)"

text \<open>
  The body of the loop of \<^verbatim>\<open>receive_invite_link\<close>; the locals are \<^verbatim>\<open>results\<close>
  and the world. \<open>is_set j\<close> is the token of the batch of the link of index \<open>j\<close>.
\<close>

definition invite_link_batch ::
  "config \<Rightarrow> environment \<Rightarrow> (nat \<Rightarrow> nat \<Rightarrow> bool) \<Rightarrow> string \<Rightarrow> account list \<Rightarrow> nat \<Rightarrow> nat
    \<Rightarrow> string \<Rightarrow> (string \<times> result) list \<times> world
    \<Rightarrow> exn option \<times> (string \<times> result) list \<times> world" where
  "invite_link_batch cfg env is_set cmd pool count j link locals =
     (if cmd = ''join'' \<or> cmd = ''mega_join''
      then (case process_join cfg env (is_set j) pool count link (snd locals) of
              (Inl e, w1) \<Rightarrow> (Some e, fst locals, w1)
            | (Inr r, w1) \<Rightarrow> (None, fst locals @ [(link, r)], w1))
      else if cmd = ''leave'' \<or> cmd = ''mega_leave''
      then (case process_leave env (is_set j) pool count link (snd locals) of
              (Inl e, w1) \<Rightarrow> (Some e, fst locals, w1)
            | (Inr r, w1) \<Rightarrow> (None, fst locals @ [(link, r)], w1))
      else (None, locals))"

text \<open>\<^verbatim>\<open>receive_invite_link\<close> (lines 495 to 524).\<close>

definition receive_invite_link ::
  "config \<Rightarrow> environment \<Rightarrow> (nat \<Rightarrow> nat \<Rightarrow> bool) \<Rightarrow> int \<Rightarrow> string \<Rightarrow> bot \<Rightarrow> exn option \<times> bot" where
  "receive_invite_link cfg env is_set sender_id text b =
     (let invite_links = map strip (split (CHR '','') (strip text));
          valid_links = filter (\<lambda>link. startswith link ''https://t.me/'') invite_links;
          invalid_links = filter (\<lambda>link. \<not> startswith link ''https://t.me/'') invite_links
      in if valid_links = [] then (None, say AllLinksInvalid b)
         else (let b1 = (if invalid_links \<noteq> [] then say (SkippedLinks invalid_links) b else b)
               in (case user_states b1 sender_id of
                     None \<Rightarrow> (Some KeyError, b1)
                   | Some st \<Rightarrow>
                       (case for_links
                               (invite_link_batch cfg env is_set (st_command st)
                                  (user_clients b1)
                                  (case st_count st of
                                     None \<Rightarrow> length (user_clients b1)
                                   | Some n \<Rightarrow> n))
                               0 valid_links ([], world b1) of
                          (Some e, results, w1) \<Rightarrow> (Some e, b1\<lparr>world := w1\<rparr>)
                        | (None, results, w1) \<Rightarrow>
                            (None,
                             b1\<lparr>world := reply (Results results) w1,
                                user_states := (user_states b1)(sender_id := None)\<rparr>)))))"

text \<open>
  The body of the loop of \<^verbatim>\<open>receive_msg_link\<close>; the locals are \<^verbatim>\<open>results\<close>,
  \<^verbatim>\<open>reaction_history\<close> and the world.
\<close>

definition msg_link_batch ::
  "config \<Rightarrow> environment \<Rightarrow> (nat \<Rightarrow> nat \<Rightarrow> bool) \<Rightarrow> string \<Rightarrow> account list \<Rightarrow> nat \<Rightarrow> nat
    \<Rightarrow> string \<Rightarrow> (string \<times> result) list \<times> (string \<rightharpoonup> (phone \<rightharpoonup> string set)) \<times> world
    \<Rightarrow> exn option \<times> (string \<times> result) list \<times> (string \<rightharpoonup> (phone \<rightharpoonup> string set)) \<times> world" where
  "msg_link_batch cfg env is_set cmd pool count j link locals =
     (if cmd = ''react'' \<or> cmd = ''mega_react''
      then (case process_react cfg env (is_set j) pool (fst (snd locals)) count link
                   (snd (snd locals)) of
              (Inl e, history1, w1) \<Rightarrow> (Some e, fst locals, history1, w1)
            | (Inr r, history1, w1) \<Rightarrow> (None, fst locals @ [(link, r)], history1, w1))
      else if cmd = ''view'' \<or> cmd = ''mega_view''
      then (case process_view cfg env (is_set j) pool count link (snd (snd locals)) of
              (Inl e, w1) \<Rightarrow> (Some e, fst locals, fst (snd locals), w1)
            | (Inr r, w1) \<Rightarrow> (None, fst locals @ [(link, r)], fst (snd locals), w1))
      else (None, locals))"

text \<open>\<^verbatim>\<open>receive_msg_link\<close> (lines 526 to 560).\<close>

definition receive_msg_link ::
  "config \<Rightarrow> environment \<Rightarrow> (nat \<Rightarrow> nat \<Rightarrow> bool) \<Rightarrow> int \<Rightarrow> string \<Rightarrow> bot \<Rightarrow> exn option \<times> bot" where
  "receive_msg_link cfg env is_set sender_id text b =
     (let msg_links = map strip (split (CHR '','') (strip text));
          valid_links = filter (\<lambda>link. message_link_match link \<noteq> None) msg_links;
          invalid_links = filter (\<lambda>link. message_link_match link = None) msg_links
      in if valid_links = [] then (None, say NoValidMessageLinks b)
         else (let b1 = (if invalid_links \<noteq> [] then say (SkippedLinks invalid_links) b else b)
               in (case user_states b1 sender_id of
                     None \<Rightarrow> (Some KeyError, b1)
                   | Some st \<Rightarrow>
                       (case for_links
                               (msg_link_batch cfg env is_set (st_command st)
                                  (user_clients b1)
                                  (case st_count st of
                                     None \<Rightarrow> length (user_clients b1)
                                   | Some n \<Rightarrow> n))
                               0 valid_links ([], reaction_history b1, world b1) of
                          (Some e, results, history1, w1) \<Rightarrow>
                            (Some e, b1\<lparr>reaction_history := history1, world := w1\<rparr>)
                        | (None, results, history1, w1) \<Rightarrow>
                            (None,
                             b1\<lparr>reaction_history := history1,
                                world := reply (Results results) w1,
                                user_states := (user_states b1)(sender_id := None)\<rparr>)))))"

section \<open>Adding an account: the phone number\<close>

text \<open>
  \<^verbatim>\<open>receive_phone\<close> (lines 940 to 1020). Disconnecting the new client changes
  nothing the model holds.
\<close>

definition forget :: "int \<Rightarrow> bot \<Rightarrow> bot" where
  "forget user_id b = b\<lparr>user_states := (user_states b)(user_id := None)\<rparr>"

definition receive_phone :: "environment \<Rightarrow> int \<Rightarrow> string \<Rightarrow> bot \<Rightarrow> bot" where
  "receive_phone env user_id text b =
     (case user_states b user_id of
        None \<Rightarrow> say NoAddaccountSession b
      | Some st \<Rightarrow>
          if st_state st \<noteq> ''phone'' then say NoAddaccountSession b
          else (let raw_phone = strip text; phone = normalize_phone raw_phone
                in if \<not> phone_pattern phone then say InvalidPhoneFormat b
                   else if phone \<in> set (map fst (user_clients b))
                   then forget user_id (say (AlreadyAdded phone) b)
                   else (case ensure_connected env (TelegramClient phone) phone (world b) of
                           (False, w1) \<Rightarrow> forget user_id (say ConnectFailed (b\<lparr>world := w1\<rparr>))
                         | (True, w1) \<Rightarrow>
                             (case invoke env phone SendCodeRequest w1 of
                                (Inr phone_code_hash, w2) \<Rightarrow>
                                  say (OtpSent phone)
                                    (b\<lparr>world := w2,
                                       user_states := (user_states b)(user_id \<mapsto>
                                         st\<lparr>st_phone := Some phone,
                                            st_client := Some (TelegramClient phone),
                                            st_phone_code_hash := Some phone_code_hash,
                                            st_state := ''otp'',
                                            st_timestamp := clock w2\<rparr>)\<rparr>)
                              | (Inl (FloodWaitError seconds), w2) \<Rightarrow>
                                  forget user_id
                                    (say (TooManyRequests seconds)
                                       (b\<lparr>world := register_flood_wait phone (real seconds) w2\<rparr>))
                              | (Inl e, w2) \<Rightarrow>
                                  forget user_id (say SendOtpFailed (b\<lparr>world := w2\<rparr>))))))"

section \<open>The message router\<close>

text \<open>
  \<^verbatim>\<open>message_handler\<close> (lines 1648 to 1679). \<open>run\<close> is what the step handlers do,
  by their names; the router returns the name of the handler it awaited, if any, and
  the bot afterwards. \<^verbatim>\<open>re.match(r'http://example\.com/', text)\<close> holds when the
  text starts with \<^verbatim>\<open>http://example.com/\<close>. Writing \<^verbatim>\<open>known_users\<close> to its file
  is not modelled.
\<close>

definition message_handler ::
  "(string \<Rightarrow> int \<Rightarrow> string \<Rightarrow> bot \<Rightarrow> bot) \<Rightarrow> int \<Rightarrow> string \<Rightarrow> bot \<Rightarrow> string option \<times> bot" where
  "message_handler run user_id text b =
     (let b1 = b\<lparr>known_users := insert user_id (known_users b)\<rparr>
      in (case user_states b1 user_id of
            None \<Rightarrow> (None, b1)
          | Some st \<Rightarrow>
              if startswith text ''http://example.com/'' then (None, b1)
              else if st_state st = ''phone''
              then (Some ''receive_phone'', run ''receive_phone'' user_id text b1)
              else if st_state st = ''otp''
              then (Some ''receive_code'', run ''receive_code'' user_id text b1)
              else if st_state st = ''password''
              then (Some ''receive_password'', run ''receive_password'' user_id text b1)
              else if st_state st = ''counting''
              then (Some ''receive_number'', run ''receive_number'' user_id text b1)
              else if st_state st = ''invite_link''
              then (Some ''receive_invite_link'', run ''receive_invite_link'' user_id text b1)
              else if st_state st = ''message_link''
              then (Some ''receive_msg_link'', run ''receive_msg_link'' user_id text b1)
              else if st_state st = ''remove_phone''
              then (Some ''receive_remove_phone'', run ''receive_remove_phone'' user_id text b1)
              else if st_state st = ''sudo_user_id''
              then (Some ''receive_sudo_user_id'', run ''receive_sudo_user_id'' user_id text b1)
              else if st_state st = ''remove_sudo_user_id''
              then (Some ''receive_remove_sudo_user_id'',
                    run ''receive_remove_sudo_user_id'' user_id text b1)
              else (None, b1)))"

section \<open>Observations\<close>

text \<open>
  A logged call is timely when the account's entry in \<^verbatim>\<open>flood_wait_until\<close>, if it had
  one when the call was issued, was not later than the time of issue.
\<close>

definition timely :: "call \<Rightarrow> bool" where
  "timely c =
     (case call_wait_until c of None \<Rightarrow> True | Some wait_until \<Rightarrow> wait_until \<le> call_time c)"

text \<open>The wait of an account has passed when its entry, if any, is not later than the clock.\<close>

definition passed :: "phone \<Rightarrow> world \<Rightarrow> bool" where
  "passed phone w =
     (case flood_wait_until w phone of None \<Rightarrow> True | Some wait_until \<Rightarrow> wait_until \<le> clock w)"

text \<open>
  A later world extends an earlier one when the clock has not gone back, the calls
  issued in between were all timely, and no entry of \<^verbatim>\<open>flood_wait_until\<close> was removed
  or decreased.
\<close>

definition extends :: "world \<Rightarrow> world \<Rightarrow> bool" where
  "extends w w' =
     (clock w \<le> clock w'
      \<and> (\<exists>new. issued w' = issued w @ new \<and> list_all timely new)
      \<and> (\<forall>q u. flood_wait_until w q = Some u
             \<longrightarrow> (\<exists>u'. flood_wait_until w' q = Some u' \<and> u \<le> u')))"

definition orderly :: "phone \<Rightarrow> world \<Rightarrow> world \<Rightarrow> bool" where
  "orderly p w w' = (extends w w' \<and> passed p w')"


text \<open>The lines about accounts that a returned value holds.\<close>

fun entries :: "result \<Rightarrow> entry list" where
  "entries Canceled = []"
| "entries (Summary n count successes failures) = successes @ failures"



text \<open>
  The number of outcomes a tally holds, and the agreement of the counter
  \<^verbatim>\<open>success\<close> with the length of \<^verbatim>\<open>success_list\<close>.
\<close>

definition outcomes :: "tally \<Rightarrow> nat" where
  "outcomes t = success t + length (failed_list t)"

definition counted :: "tally \<Rightarrow> bool" where
  "counted t = (length (success_list t) = success t)"

section \<open>Example data\<close>

text \<open>Concrete worlds, bots and environments on which the theorems below are run.\<close>

definition world0 :: world where
  "world0 = \<lparr>clock = 0, flood_wait_until = Map.empty, issued = [], answered = 0, drawn = 0,
             replies = []\<rparr>"

definition bot0 :: bot where
  "bot0 = \<lparr>user_states = Map.empty, user_clients = [], reaction_history = Map.empty,
           known_users = {}, world = world0\<rparr>"

definition awaiting_phone :: user_state where
  "awaiting_phone = \<lparr>st_command = ''addaccount'', st_state = ''phone'', st_timestamp = 0,
                     st_count = None, st_phone = None, st_client = None,
                     st_phone_code_hash = None\<rparr>"

text \<open>An environment in which every call returns 7 at once.\<close>

definition quiet :: environment where
  "quiet = \<lparr>answer = (\<lambda>n. (0, Inr 7)), pick = (\<lambda>n. 0), uniform = (\<lambda>n. 0)\<rparr>"

text \<open>A configuration with two emojis, a pool of three accounts, and links.\<close>

definition cfg1 :: config where
  "cfg1 = \<lparr>JOIN_DELAY = 1, REACT_DELAY = 1, VIEW_DELAY = 1 / 2,
           EMOJIS = [''thumbs_up'', ''fire'']\<rparr>"

definition pool3 :: "account list" where
  "pool3 = [(''+10000001'', TelegramClient ''+10000001'', ''session1''),
            (''+10000002'', TelegramClient ''+10000002'', ''session2''),
            (''+10000003'', TelegramClient ''+10000003'', ''session3'')]"

definition channel_link :: string where
  "channel_link = ''https://t.me/chan''"

definition message_link :: string where
  "message_link = ''https://t.me/chan/5''"

text \<open>
  A world at time 80 in which the first account has to wait until time 100, and a bot
  with the pool of three accounts in that world.
\<close>

definition waiting_world :: world where
  "waiting_world = world0\<lparr>clock := 80, flood_wait_until := [''+10000001'' \<mapsto> 100]\<rparr>"

text \<open>
  An operator who is asked for a phone number, at time 10, when the number
  \<^verbatim>\<open>+1234567\<close> has to wait until time 1000; and an environment whose second answer is
  a flood wait of 5 seconds.
\<close>

definition late_bot :: bot where
  "late_bot = bot0\<lparr>user_states := [7 \<mapsto> awaiting_phone],
                    world := world0\<lparr>clock := 10, flood_wait_until := [''+1234567'' \<mapsto> 1000]\<rparr>\<rparr>"

definition limited :: environment where
  "limited = \<lparr>answer = (\<lambda>n. if n = 1 then (0, Inl (FloodWaitError 5)) else (0, Inr 7)),
              pick = (\<lambda>n. 0), uniform = (\<lambda>n. 0)\<rparr>"

text \<open>An environment whose first answer is that the name does not resolve.\<close>

definition unresolved :: environment where
  "unresolved = \<lparr>answer = (\<lambda>n. if n = 0 then (0, Inl ValueError) else (0, Inr 7)),
                 pick = (\<lambda>n. 0), uniform = (\<lambda>n. 0)\<rparr>"

text \<open>
  An environment whose third answer is a flood wait of 5 seconds and whose random waits
  are of half a second, and a link of invitation.
\<close>

definition jittery :: environment where
  "jittery = \<lparr>answer = (\<lambda>n. if n = 2 then (0, Inl (FloodWaitError 5)) else (0, Inr 7)),
              pick = (\<lambda>n. 0), uniform = (\<lambda>n. 1 / 2)\<rparr>"

definition private_link :: string where
  "private_link = ''https://t.me/+abc''"

section \<open>Unfolding the model on concrete data\<close>

lemmas model_defs =
  process_join_def process_join_loop_def process_join_account_def
  process_leave_def process_leave_loop_def process_leave_account_def process_leave_failed_def
  process_react_def process_react_loop_def process_react_account_def select_emoji_def choice_def
  process_view_def process_view_loop_def process_view_account_def summary_def
  join_channel_def join_channel_public_def join_channel_private_def join_channel_entity_def
  send_reaction_def send_reaction_entity_def send_view_def send_view_entity_def
  extract_message_info_def message_link_match_def match_chat_and_id_def decimal_value_def
  word_or_hyphen_def isdecimal_def py_int_def int_space_def strip_def isspace_def
  ensure_connected_def connect_def invoke_def respect_flood_limit_def register_flood_wait_def
  sleep_def reply_def startswith_def succeeded_def failed_def no_tally_def Let_def
  numeral_3_eq_3

lemmas example_defs =
  cfg1_def pool3_def quiet_def world0_def channel_link_def message_link_def waiting_world_def
  late_bot_def limited_def bot0_def awaiting_phone_def unresolved_def
  jittery_def private_link_def

lemmas handler_defs =
  start_link_only_command_def start_count_link_command_def receive_number_def
  receive_invite_link_def receive_msg_link_def invite_link_batch_def msg_link_batch_def
  receive_phone_def normalize_phone_def phone_pattern_def isdigit_def say_def forget_def
  info_def

section \<open>The clock, the log of calls and the flood clock\<close>

lemma extends_refl: "extends w w"
  by (simp add: extends_def)

lemma extends_trans: "extends w1 w2 \<Longrightarrow> extends w2 w3 \<Longrightarrow> extends w1 w3"
  unfolding extends_def
  apply (elim conjE exE)
  apply (intro conjI)
    apply simp
   apply (rule_tac x = "new @ newa" in exI)
   apply simp
  apply (meson order_trans)
  done

lemma passed_later:
  "passed q w \<Longrightarrow> flood_wait_until w' q = flood_wait_until w q \<Longrightarrow> clock w \<le> clock w'
    \<Longrightarrow> passed q w'"
  by (auto simp add: passed_def split: option.splits)

lemma extends_same:
  "issued w' = issued w \<Longrightarrow> flood_wait_until w' = flood_wait_until w \<Longrightarrow> clock w \<le> clock w'
    \<Longrightarrow> extends w w'"
  by (simp add: extends_def)

lemma sleep_fields [simp]:
  "issued (sleep d w) = issued w" "flood_wait_until (sleep d w) = flood_wait_until w"
  "clock w \<le> clock (sleep d w)" "replies (sleep d w) = replies w"
  "answered (sleep d w) = answered w" "drawn (sleep d w) = drawn w"
  by (simp_all add: sleep_def)

lemma reply_fields [simp]:
  "issued (reply r w) = issued w" "flood_wait_until (reply r w) = flood_wait_until w"
  "clock (reply r w) = clock w" "replies (reply r w) = replies w @ [r]"
  "answered (reply r w) = answered w" "drawn (reply r w) = drawn w"
  by (simp_all add: reply_def)

lemma extends_sleep: "extends w (sleep d w)"
  by (simp add: extends_same)

lemma extends_reply: "extends w (reply r w)"
  by (simp add: extends_same)

lemma passed_sleep: "passed q w \<Longrightarrow> passed q (sleep d w)"
  by (erule passed_later) simp_all

lemma passed_reply [simp]: "passed q (reply r w) = passed q w"
  by (simp add: passed_def split: option.splits)

lemma respect_flood_limit_fields [simp]:
  "issued (respect_flood_limit p d w) = issued w"
  "flood_wait_until (respect_flood_limit p d w) = flood_wait_until w"
  "clock w \<le> clock (respect_flood_limit p d w)"
  "replies (respect_flood_limit p d w) = replies w"
  "answered (respect_flood_limit p d w) = answered w"
  "drawn (respect_flood_limit p d w) = drawn w"
  by (simp_all add: respect_flood_limit_def sleep_def Let_def split: option.splits)

lemma respect_flood_limit_clock:
  "clock (respect_flood_limit p d w)
     = (case flood_wait_until w p of None \<Rightarrow> clock w | Some u \<Rightarrow> max (clock w) u)
       + (if 0 < d then d else 0)"
  by (simp add: respect_flood_limit_def sleep_def Let_def split: option.splits)

lemma passed_respect_flood_limit: "passed p (respect_flood_limit p d w)"
  by (auto simp add: passed_def respect_flood_limit_clock split: option.splits)

lemma passed_respect_flood_limit_other: "passed q w \<Longrightarrow> passed q (respect_flood_limit p d w)"
  by (erule passed_later) simp_all

lemma extends_respect_flood_limit: "extends w (respect_flood_limit p d w)"
  by (simp add: extends_same)

lemma connect_fields [simp]:
  "issued (snd (connect env w)) = issued w"
  "flood_wait_until (snd (connect env w)) = flood_wait_until w"
  "clock w \<le> clock (snd (connect env w))"
  "replies (snd (connect env w)) = replies w"
  by (simp_all add: connect_def)

lemma ensure_connected_attempts_fields:
  "issued (snd (ensure_connected_attempts env d n w)) = issued w
   \<and> flood_wait_until (snd (ensure_connected_attempts env d n w)) = flood_wait_until w
   \<and> clock w \<le> clock (snd (ensure_connected_attempts env d n w))
   \<and> replies (snd (ensure_connected_attempts env d n w)) = replies w"
proof (induction n arbitrary: w)
  case 0
  show ?case by simp
next
  case (Suc n)
  obtain ok w1 where c: "connect env w = (ok, w1)"
    by (cases "connect env w")
  have f: "issued w1 = issued w" "flood_wait_until w1 = flood_wait_until w"
    "clock w \<le> clock w1" "replies w1 = replies w"
    using connect_fields [where env = env and w = w] by (simp_all add: c)
  show ?case
  proof (cases ok)
    case True
    then show ?thesis using f by (simp add: c)
  next
    case False
    define w2 where "w2 = (if 0 < n then sleep d w1 else w1)"
    have g: "issued w2 = issued w" "flood_wait_until w2 = flood_wait_until w"
      "clock w \<le> clock w2" "replies w2 = replies w"
      using f by (auto simp add: w2_def sleep_def)
    have "ensure_connected_attempts env d (Suc n) w = ensure_connected_attempts env d n w2"
      using False by (simp add: c w2_def)
    then show ?thesis
      using Suc.IH [where w = w2] g by simp
  qed
qed

lemma ensure_connected_fields [simp]:
  "issued (snd (ensure_connected env c p w)) = issued w"
  "flood_wait_until (snd (ensure_connected env c p w)) = flood_wait_until w"
  "clock w \<le> clock (snd (ensure_connected env c p w))"
  "replies (snd (ensure_connected env c p w)) = replies w"
  using ensure_connected_attempts_fields [where env = env and d = 5 and n = 3 and w = w]
  by (simp_all add: ensure_connected_def)

lemma extends_ensure_connected: "extends w (snd (ensure_connected env c p w))"
  by (simp add: extends_same)

lemma passed_ensure_connected: "passed q w \<Longrightarrow> passed q (snd (ensure_connected env c p w))"
  by (erule passed_later) simp_all

lemma invoke_fields [simp]:
  "flood_wait_until (snd (invoke env p r w)) = flood_wait_until w"
  "clock w \<le> clock (snd (invoke env p r w))"
  "replies (snd (invoke env p r w)) = replies w"
  "issued (snd (invoke env p r w))
     = issued w @ [\<lparr>call_time = clock w, call_phone = p, call_request = r,
                     call_wait_until = flood_wait_until w p\<rparr>]"
  "fst (invoke env p r w) = snd (answer env (answered w))"
  by (simp_all add: invoke_def)

lemma extends_invoke: "passed p w \<Longrightarrow> extends w (snd (invoke env p r w))"
  by (auto simp add: extends_def passed_def timely_def split: option.splits)

lemma passed_invoke: "passed q w \<Longrightarrow> passed q (snd (invoke env p r w))"
  by (erule passed_later) simp_all

lemma extends_register_flood_wait:
  "passed p w \<Longrightarrow> 0 \<le> s \<Longrightarrow> extends w (register_flood_wait p s w)"
  by (auto simp add: extends_def passed_def register_flood_wait_def split: option.splits)


lemma orderly_refl: "passed p w \<Longrightarrow> orderly p w w"
  by (simp add: orderly_def extends_refl)

lemma orderly_extends: "orderly p w w' \<Longrightarrow> extends w w'"
  by (simp add: orderly_def)

lemma extends_then_sleep: "extends w w1 \<Longrightarrow> extends w (sleep d w1)"
  by (erule extends_trans) (rule extends_sleep)

lemma extends_then_reply: "extends w w1 \<Longrightarrow> extends w (reply r w1)"
  by (erule extends_trans) (rule extends_reply)

lemma extends_then_respect_flood_limit:
  "extends w w1 \<Longrightarrow> extends w (respect_flood_limit q d w1)"
  by (erule extends_trans) (rule extends_respect_flood_limit)

lemma extends_then_ensure_connected:
  "extends w w1 \<Longrightarrow> extends w (snd (ensure_connected env c q w1))"
  by (erule extends_trans) (rule extends_ensure_connected)

lemma extends_then_drawn: "extends w w1 \<Longrightarrow> extends w (w1\<lparr>drawn := n\<rparr>)"
  by (simp add: extends_def)

lemma orderly_after_respect_flood_limit:
  "extends w w1 \<Longrightarrow> orderly p w (respect_flood_limit p d w1)"
  by (simp add: orderly_def extends_then_respect_flood_limit passed_respect_flood_limit)

lemma orderly_then_invoke: "orderly p w w1 \<Longrightarrow> orderly p w (snd (invoke env p r w1))"
  unfolding orderly_def by (blast intro: extends_trans extends_invoke passed_invoke)

lemma orderly_then_sleep: "orderly p w w1 \<Longrightarrow> orderly p w (sleep d w1)"
  unfolding orderly_def by (blast intro: extends_then_sleep passed_sleep)

lemma orderly_then_reply: "orderly p w w1 \<Longrightarrow> orderly p w (reply r w1)"
  unfolding orderly_def by (simp add: extends_then_reply)

lemma orderly_then_respect_flood_limit:
  "orderly p w w1 \<Longrightarrow> orderly p w (respect_flood_limit q d w1)"
  unfolding orderly_def
  by (blast intro: extends_then_respect_flood_limit passed_respect_flood_limit_other)

lemma orderly_then_ensure_connected:
  "orderly p w w1 \<Longrightarrow> orderly p w (snd (ensure_connected env c q w1))"
  unfolding orderly_def by (blast intro: extends_then_ensure_connected passed_ensure_connected)

lemma orderly_then_drawn: "orderly p w w1 \<Longrightarrow> orderly p w (w1\<lparr>drawn := n\<rparr>)"
  by (auto simp add: orderly_def extends_def passed_def split: option.splits)

lemma extends_then_register_flood_wait:
  "orderly p w w1 \<Longrightarrow> 0 \<le> s \<Longrightarrow> extends w (register_flood_wait p s w1)"
  unfolding orderly_def by (blast intro: extends_trans extends_register_flood_wait)

lemmas orderly_steps =
  orderly_then_invoke orderly_then_sleep orderly_then_reply orderly_then_respect_flood_limit
  orderly_then_ensure_connected orderly_then_drawn

lemmas extends_steps =
  extends_then_sleep extends_then_reply extends_then_respect_flood_limit
  extends_then_ensure_connected extends_then_drawn

lemma orderly_then_join_channel_entity:
  "orderly p w w1 \<Longrightarrow> orderly p w (snd (join_channel_entity env p n w1))"
  by (simp add: join_channel_entity_def split_beta orderly_steps
      split: sum.splits exn.splits)

lemma orderly_then_join_channel_private:
  "orderly p w w1 \<Longrightarrow> orderly p w (snd (join_channel_private cfg env p l w1))"
  by (simp add: join_channel_private_def Let_def split_beta orderly_steps split: sum.splits)

lemma orderly_then_join_channel_public:
  "orderly p w w1 \<Longrightarrow> orderly p w (snd (join_channel_public cfg env p l w1))"
  by (simp add: join_channel_public_def Let_def split_beta orderly_steps
      orderly_then_join_channel_entity split: sum.splits)

lemma extends_then_join_channel:
  assumes "extends w w1"
  shows "extends w (snd (join_channel cfg env c l p w1))"
proof -
  define w2 where "w2 = snd (ensure_connected env c p w1)"
  define w3 where "w3 = respect_flood_limit p 0 w2"
  have e2: "extends w w2"
    unfolding w2_def using assms by (rule extends_then_ensure_connected)
  have o3: "orderly p w w3"
    unfolding w3_def using e2 by (rule orderly_after_respect_flood_limit)
  have o4: "orderly p w (snd (join_channel_private cfg env p l w3))"
    using o3 by (rule orderly_then_join_channel_private)
  have o5: "orderly p w (snd (join_channel_public cfg env p l w3))"
    using o3 by (rule orderly_then_join_channel_public)
  have e6: "extends w (register_flood_wait p (real s) (snd (join_channel_private cfg env p l w3)))"
    for s
    using o4 by (rule extends_then_register_flood_wait) simp
  show ?thesis
    using e2 o4 o5 e6
    by (simp add: join_channel_def split_beta w2_def [symmetric] w3_def [symmetric]
        orderly_extends split: sum.splits exn.splits bool.splits)
qed

lemma orderly_then_join_channel_public_link:
  "orderly p w w1 \<Longrightarrow> \<not> startswith l ''https://t.me/+''
    \<Longrightarrow> orderly p w (snd (join_channel cfg env c l p w1))"
  by (simp add: join_channel_def split_beta orderly_steps
      orderly_then_join_channel_public split: bool.splits)

lemma orderly_then_send_reaction_entity:
  "orderly p w w1 \<Longrightarrow> orderly p w (snd (send_reaction_entity env p n w1))"
  by (simp add: send_reaction_entity_def split_beta orderly_steps
      split: sum.splits exn.splits option.splits)

lemma orderly_then_send_view_entity:
  "orderly p w w1 \<Longrightarrow> orderly p w (snd (send_view_entity env p n w1))"
  by (simp add: send_view_entity_def split_beta orderly_steps split: option.splits)


lemma word_or_hyphen_not_plus: "word_or_hyphen c \<Longrightarrow> c \<noteq> CHR ''+''"
  by (auto simp add: word_or_hyphen_def Let_def)

lemma match_chat_and_id_head:
  assumes "match_chat_and_id s = Some (chat, digits)"
  shows "chat \<noteq> [] \<and> hd chat \<noteq> CHR ''+''"
proof -
  define a where "a = (if startswith s ''@'' then ''@'' else [])"
  define name where "name = takeWhile word_or_hyphen (drop (length a) s)"
  have chat: "chat = a @ name" and name: "name \<noteq> []"
    using assms
    by (auto simp add: match_chat_and_id_def Let_def a_def name_def split: if_splits)
  have "hd name \<in> set name"
    using name by simp
  then have "word_or_hyphen (hd name)"
    unfolding name_def by (rule set_takeWhileD [THEN conjunct2])
  then have "hd name \<noteq> CHR ''+''"
    by (rule word_or_hyphen_not_plus)
  then show ?thesis
    using name by (auto simp add: chat a_def)
qed

lemma extract_message_info_public:
  assumes "extract_message_info l = Some (chat_identifier, message_id)"
  shows "\<not> startswith (''https://t.me/'' @ chat_identifier) ''https://t.me/+''"
proof -
  obtain pre chat digits where m: "message_link_match l = Some (pre, chat, digits)"
    and c: "chat_identifier = (if pre = ''c/'' then ''-100'' @ chat else chat)"
    using assms by (auto simp add: extract_message_info_def split: option.splits)
  have "\<exists>s. match_chat_and_id s = Some (chat, digits)"
    using m by (auto simp add: message_link_match_def Let_def split: if_splits option.splits)
  then have "chat \<noteq> [] \<and> hd chat \<noteq> CHR ''+''"
    by (auto dest: match_chat_and_id_head)
  then have "chat_identifier \<noteq> [] \<and> hd chat_identifier \<noteq> CHR ''+''"
    by (simp add: c)
  then show ?thesis
    by (cases chat_identifier) (simp_all add: startswith_def)
qed

lemma orderly_flood_sleep:
  assumes "orderly p w w1" and "0 \<le> s"
  shows "orderly p w (sleep s (register_flood_wait p s w1))"
proof -
  have "extends w (sleep s (register_flood_wait p s w1))"
    using assms by (blast intro: extends_then_sleep extends_then_register_flood_wait)
  moreover have "passed p (sleep s (register_flood_wait p s w1))"
    using assms(2) by (simp add: passed_def sleep_def register_flood_wait_def)
  ultimately show ?thesis
    by (simp add: orderly_def)
qed

lemma orderly_then_send_reaction_attempts:
  assumes "\<not> startswith (''https://t.me/'' @ cid) ''https://t.me/+''"
    and "\<And>n. 0 \<le> uniform env n"
  shows "orderly p w w1
    \<Longrightarrow> orderly p w (snd (send_reaction_attempts cfg env c p cid chat mid emoji left w1))"
proof (induction left arbitrary: w1)
  case 0
  then show ?case by simp
next
  case (Suc left)
  define w2 where "w2 = snd (invoke env p (SendReactionRequest chat mid emoji) w1)"
  have o2: "orderly p w w2"
    unfolding w2_def using Suc.prems by (rule orderly_then_invoke)
  have o3: "orderly p w (snd (join_channel cfg env c (''https://t.me/'' @ cid) p w2))"
    using o2 assms(1) by (rule orderly_then_join_channel_public_link)
  have o4: "orderly p w (sleep (real s + uniform env (drawn w2))
              (register_flood_wait p (real s + uniform env (drawn w2))
                (w2\<lparr>drawn := Suc (drawn w2)\<rparr>)))" for s
    using o2 assms(2) [of "drawn w2"]
    by (intro orderly_flood_sleep orderly_then_drawn) simp_all
  have o5: "orderly p w (sleep 2 w2)"
    using o2 by (rule orderly_then_sleep)
  show ?case
    using o2 o3 o4 o5 Suc.IH
    by (simp add: split_beta w2_def [symmetric] Let_def split: sum.splits exn.splits)
qed

lemma extends_then_send_reaction:
  assumes "\<And>n. 0 \<le> uniform env n" and "extends w w1"
  shows "extends w (snd (send_reaction cfg env c l p emoji w1))"
proof (cases "extract_message_info l")
  case None
  then show ?thesis using assms(2) by (simp add: send_reaction_def)
next
  case (Some info)
  obtain cid mid where info: "info = (cid, mid)"
    by (cases info)
  have pub: "\<not> startswith (''https://t.me/'' @ cid) ''https://t.me/+''"
    using Some info by (auto dest: extract_message_info_public)
  define w2 where "w2 = snd (ensure_connected env c p w1)"
  define w3 where "w3 = snd (send_reaction_entity env p cid (respect_flood_limit p 0 w2))"
  have e2: "extends w w2"
    unfolding w2_def using assms(2) by (rule extends_then_ensure_connected)
  have o3: "orderly p w w3"
    unfolding w3_def using e2
    by (intro orderly_then_send_reaction_entity orderly_after_respect_flood_limit)
  have o4: "orderly p w (snd (send_reaction_attempts cfg env c p cid chat mid emoji 3 w3))"
    for chat
    using pub assms(1) o3 by (rule orderly_then_send_reaction_attempts)
  show ?thesis
    using assms(2) e2 orderly_extends [OF o3] orderly_extends [OF o4]
    by (simp add: send_reaction_def Some info split_beta w2_def [symmetric]
        w3_def [symmetric] split: sum.splits bool.splits)
qed

lemma extends_then_send_view:
  assumes "extends w w1"
  shows "extends w (snd (send_view env c l p w1))"
proof (cases "extract_message_info l")
  case None
  then show ?thesis using assms by (simp add: send_view_def)
next
  case (Some info)
  obtain cid mid where info: "info = (cid, mid)"
    by (cases info)
  define w2 where "w2 = snd (ensure_connected env c p w1)"
  define w3 where "w3 = snd (send_view_entity env p cid (respect_flood_limit p 0 w2))"
  have e2: "extends w w2"
    unfolding w2_def using assms by (rule extends_then_ensure_connected)
  have o3: "orderly p w w3"
    unfolding w3_def using e2
    by (intro orderly_then_send_view_entity orderly_after_respect_flood_limit)
  have e3: "extends w (register_flood_wait p (real s) w3)" for s
    using o3 by (rule extends_then_register_flood_wait) simp
  have o4: "orderly p w (snd (invoke env p r w3))" for r
    using o3 by (rule orderly_then_invoke)
  have e4: "extends w (register_flood_wait p (real s) (snd (invoke env p r w3)))" for s r
    using o4 by (rule extends_then_register_flood_wait) simp
  show ?thesis
    using assms e2 orderly_extends [OF o3] e3 orderly_extends [OF o4] e4
    by (simp add: send_view_def Some info split_beta w2_def [symmetric]
        w3_def [symmetric] split: sum.splits bool.splits exn.splits)
qed

section \<open>The loop over the accounts\<close>

lemma extends_then_for_accounts:
  assumes step: "\<And>a s w1. extends w w1 \<Longrightarrow> extends w (snd (snd (body a s w1)))"
  shows "extends w w1
    \<Longrightarrow> extends w (snd (snd (snd (for_accounts is_set canceled body i accounts s w1))))"
proof (induction accounts arbitrary: i s w1)
  case Nil
  then show ?case by simp
next
  case (Cons a rest)
  obtain err s2 w2 where b: "body a s w1 = (err, s2, w2)"
    by (cases "body a s w1")
  have e2: "extends w w2"
    using step [OF Cons.prems, of a s] by (simp add: b)
  show ?case
    using Cons.prems e2 Cons.IH [OF e2]
    by (simp add: b extends_then_reply split: option.splits)
qed

lemma for_accounts_stopped:
  assumes "k < length accounts" and "is_set (i + k)" and "\<And>j. j < k \<Longrightarrow> \<not> is_set (i + j)"
  shows "for_accounts is_set canceled body i accounts s w =
     (case for_accounts (\<lambda>j. False) canceled body i (take k accounts) s w of
        (Completed, remaining, s', w') \<Rightarrow> (Stopped, drop k accounts, s', reply canceled w')
      | (how, remaining, s', w') \<Rightarrow> (how, remaining @ drop k accounts, s', w'))"
  using assms
proof (induction accounts arbitrary: i k s w)
  case Nil
  then show ?case by simp
next
  case (Cons a rest)
  show ?case
  proof (cases k)
    case 0
    then show ?thesis using Cons.prems by simp
  next
    case (Suc k')
    have not_set: "\<not> is_set i"
      using Cons.prems(3) [of 0] Suc by simp
    obtain err s2 w2 where b: "body a s w = (err, s2, w2)"
      by (cases "body a s w")
    show ?thesis
    proof (cases err)
      case (Some e)
      then show ?thesis unfolding Suc using not_set b by simp
    next
      case None
      have "for_accounts is_set canceled body (Suc i) rest s2 w2 =
        (case for_accounts (\<lambda>j. False) canceled body (Suc i) (take k' rest) s2 w2 of
           (Completed, remaining, s', w') \<Rightarrow> (Stopped, drop k' rest, s', reply canceled w')
         | (how, remaining, s', w') \<Rightarrow> (how, remaining @ drop k' rest, s', w'))"
      proof (rule Cons.IH)
        show "k' < length rest" using Cons.prems(1) Suc by simp
        show "is_set (Suc i + k')" using Cons.prems(2) Suc by simp
        show "\<not> is_set (Suc i + j)" if "j < k'" for j
          using Cons.prems(3) [of "Suc j"] that Suc by simp
      qed
      then show ?thesis
        unfolding Suc using not_set b None by (simp split: prod.splits ending.splits)
    qed
  qed
qed

lemma for_accounts_completes:
  assumes "\<And>a s w. fst (body a s w) = None"
  shows "fst (for_accounts (\<lambda>j. False) canceled body i accounts s w) = Completed
    \<and> fst (snd (for_accounts (\<lambda>j. False) canceled body i accounts s w)) = []"
proof (induction accounts arbitrary: i s w)
  case Nil
  show ?case by simp
next
  case (Cons a rest)
  obtain err s2 w2 where b: "body a s w = (err, s2, w2)"
    by (cases "body a s w")
  have "err = None"
    using assms [of a s w] by (simp add: b)
  then show ?case
    using Cons.IH [of "Suc i" s2 w2] by (simp add: b)
qed



section \<open>What the callees leave unchanged\<close>

lemma register_flood_wait_fields [simp]:
  "replies (register_flood_wait p s w) = replies w"
  "issued (register_flood_wait p s w) = issued w"
  "clock (register_flood_wait p s w) = clock w"
  "flood_wait_until (register_flood_wait p s w) = (flood_wait_until w)(p \<mapsto> clock w + s)"
  by (simp_all add: register_flood_wait_def)

lemma replies_join_channel_entity [simp]:
  "replies (snd (join_channel_entity env p n w)) = replies w"
  by (simp add: join_channel_entity_def split_beta split: sum.splits exn.splits)

lemma replies_join_channel_private [simp]:
  "replies (snd (join_channel_private cfg env p l w)) = replies w"
  by (simp add: join_channel_private_def Let_def split_beta split: sum.splits)

lemma replies_join_channel_public [simp]:
  "replies (snd (join_channel_public cfg env p l w)) = replies w"
  by (simp add: join_channel_public_def Let_def split_beta split: sum.splits)

lemma replies_join_channel [simp]:
  "replies (snd (join_channel cfg env c l p w)) = replies w"
  by (simp add: join_channel_def split_beta split: sum.splits exn.splits bool.splits)

lemma replies_send_reaction_entity [simp]:
  "replies (snd (send_reaction_entity env p n w)) = replies w"
  by (simp add: send_reaction_entity_def split_beta split: sum.splits exn.splits option.splits)

lemma replies_send_view_entity [simp]:
  "replies (snd (send_view_entity env p n w)) = replies w"
  by (simp add: send_view_entity_def split_beta split: option.splits)

lemma replies_send_reaction_attempts [simp]:
  "replies (snd (send_reaction_attempts cfg env c p cid chat mid emoji left w)) = replies w"
  by (induction left arbitrary: w)
    (simp_all add: split_beta Let_def split: sum.splits exn.splits)

lemma replies_send_reaction [simp]:
  "replies (snd (send_reaction cfg env c l p emoji w)) = replies w"
  by (simp add: send_reaction_def split_beta split: option.splits sum.splits bool.splits)

lemma replies_send_view [simp]:
  "replies (snd (send_view env c l p w)) = replies w"
  by (simp add: send_view_def split_beta
      split: option.splits sum.splits bool.splits exn.splits)

subsection \<open>The bodies of the four loops\<close>

lemma outcomes_succeeded [simp]: "outcomes (succeeded e t) = Suc (outcomes t)"
  by (simp add: outcomes_def succeeded_def)

lemma outcomes_failed [simp]: "outcomes (failed e t) = Suc (outcomes t)"
  by (simp add: outcomes_def failed_def)

lemma counted_succeeded [simp]: "counted (succeeded e t) = counted t"
  by (simp add: counted_def succeeded_def)

lemma counted_failed [simp]: "counted (failed e t) = counted t"
  by (simp add: counted_def failed_def)

lemma outcomes_no_tally [simp]: "outcomes no_tally = 0" "counted no_tally"
  by (simp_all add: outcomes_def counted_def no_tally_def)

text \<open>Join.\<close>

lemma process_join_account_none [simp]:
  "fst (process_join_account cfg env count l a s w) = None"
  by (simp add: process_join_account_def split_beta Let_def)

lemma process_join_account_outcomes [simp]:
  "outcomes (fst (fst (snd (process_join_account cfg env count l a s w))))
     = Suc (outcomes (fst s))"
  by (simp add: process_join_account_def split_beta Let_def)



lemma extends_then_process_join_account:
  "extends w w1 \<Longrightarrow> extends w (snd (snd (process_join_account cfg env count l a s w1)))"
  by (simp add: process_join_account_def split_beta Let_def extends_then_reply
      extends_then_join_channel)

text \<open>Leave.\<close>

lemma process_leave_failed_none [simp]:
  "fst (process_leave_failed l p e t w) = None"
  by (simp add: process_leave_failed_def split: exn.splits)

lemma process_leave_failed_outcomes [simp]:
  "outcomes (fst (snd (process_leave_failed l p e t w))) = Suc (outcomes t)"
  by (simp add: process_leave_failed_def split: exn.splits)

lemma process_leave_failed_counted [simp]:
  "counted (fst (snd (process_leave_failed l p e t w))) = counted t"
  by (simp add: process_leave_failed_def split: exn.splits)


lemma extends_then_process_leave_failed:
  "orderly p w w1 \<Longrightarrow> extends w (snd (snd (process_leave_failed l p e t w1)))"
  by (simp add: process_leave_failed_def extends_then_reply orderly_extends
      extends_then_register_flood_wait split: exn.splits)

lemma process_leave_account_none [simp]:
  "fst (process_leave_account env l a t w) = None"
  by (simp add: process_leave_account_def split_beta split: sum.splits bool.splits)

lemma process_leave_account_outcomes [simp]:
  "outcomes (fst (snd (process_leave_account env l a t w))) = Suc (outcomes t)"
  by (simp add: process_leave_account_def split_beta split: sum.splits bool.splits)



lemma extends_then_process_leave_account:
  assumes "extends w w1"
  shows "extends w (snd (snd (process_leave_account env l a t w1)))"
proof -
  obtain p c ss where a: "a = (p, c, ss)"
    by (cases a)
  define w2 where "w2 = snd (ensure_connected env c p w1)"
  define w3 where "w3 = snd (invoke env p (GetEntity (ByName l)) (respect_flood_limit p 0 w2))"
  have e2: "extends w w2"
    unfolding w2_def using assms by (rule extends_then_ensure_connected)
  have o3: "orderly p w w3"
    unfolding w3_def using e2
    by (intro orderly_then_invoke orderly_after_respect_flood_limit)
  have o4: "orderly p w (snd (invoke env p r w3))" for r
    using o3 by (rule orderly_then_invoke)
  have e5: "extends w (snd (snd (process_leave_failed l p e t w3)))" for e
    using o3 by (rule extends_then_process_leave_failed)
  have e6: "extends w (snd (snd (process_leave_failed l p e t (snd (invoke env p r w3)))))"
    for e r
    using o4 by (rule extends_then_process_leave_failed)
  have e7: "extends w (respect_flood_limit p 0 (reply r' (snd (invoke env p r w3))))" for r r'
    using orderly_extends [OF o4]
    by (intro extends_then_respect_flood_limit extends_then_reply)
  show ?thesis
    using e2 e5 e6 e7
    by (simp add: process_leave_account_def a split_beta w2_def [symmetric]
        w3_def [symmetric] extends_then_reply split: sum.splits bool.splits)
qed

text \<open>View.\<close>

lemma process_view_account_none [simp]:
  "fst (process_view_account cfg env l a t w) = None"
  by (simp add: process_view_account_def split_beta split: bool.splits)

lemma process_view_account_outcomes [simp]:
  "outcomes (fst (snd (process_view_account cfg env l a t w))) = Suc (outcomes t)"
  by (simp add: process_view_account_def split_beta split: bool.splits)



lemma extends_then_process_view_account:
  "extends w w1 \<Longrightarrow> extends w (snd (snd (process_view_account cfg env l a t w1)))"
  by (simp add: process_view_account_def split_beta extends_then_reply
      extends_then_respect_flood_limit extends_then_send_view split: bool.splits)

text \<open>React.\<close>

lemma choice_member: "xs \<noteq> [] \<Longrightarrow> \<exists>x. choice xs r = Inr x \<and> x \<in> set xs"
  by (simp add: choice_def)

lemma select_emoji_unused:
  assumes "emojis \<noteq> []"
  shows "\<exists>g. select_emoji emojis used r
               = (Inr g, if set emojis \<subseteq> used then {} else used)
             \<and> g \<in> set emojis \<and> (\<not> set emojis \<subseteq> used \<longrightarrow> g \<notin> used)"
proof (cases "filter (\<lambda>e. e \<notin> used) emojis = []")
  case True
  then have all: "set emojis \<subseteq> used"
    by (auto simp add: filter_empty_conv)
  obtain g where "choice emojis r = Inr g" and "g \<in> set emojis"
    using choice_member [OF assms] by blast
  then show ?thesis
    using True all by (simp add: select_emoji_def)
next
  case False
  then have some: "\<not> set emojis \<subseteq> used"
    by (auto simp add: filter_empty_conv)
  obtain g where g: "choice (filter (\<lambda>e. e \<notin> used) emojis) r = Inr g"
    and m: "g \<in> set (filter (\<lambda>e. e \<notin> used) emojis)"
    using choice_member [OF False] by blast
  then show ?thesis
    using False some by (simp add: select_emoji_def)
qed

lemma send_reaction_attempts_result:
  "fst (send_reaction_attempts cfg env c p cid chat mid emoji left w) = None
   \<or> fst (send_reaction_attempts cfg env c p cid chat mid emoji left w) = Some emoji"
  by (induction left arbitrary: w)
    (simp_all add: split_beta Let_def split: sum.splits exn.splits)

lemma send_reaction_result:
  "fst (send_reaction cfg env c l p emoji w) = None
   \<or> fst (send_reaction cfg env c l p emoji w) = Some emoji"
  using send_reaction_attempts_result
  by (simp add: send_reaction_def split_beta split: option.splits sum.splits bool.splits)

lemma process_react_account_cases:
  assumes "EMOJIS cfg \<noteq> []"
    and "used = (case ledger p of None \<Rightarrow> {} | Some u \<Rightarrow> u)"
  shows "\<exists>g used1. select_emoji (EMOJIS cfg) used (pick env (drawn w)) = (Inr g, used1)
      \<and> g \<in> set (EMOJIS cfg)
      \<and> used1 = (if set (EMOJIS cfg) \<subseteq> used then {} else used)
      \<and> (\<not> set (EMOJIS cfg) \<subseteq> used \<longrightarrow> g \<notin> used)
      \<and> (process_react_account cfg env l (p, c, ss) (ledger, t) w
            = (None, (ledger(p \<mapsto> insert g used1), succeeded (ReactedEntry p g) t),
               respect_flood_limit p (REACT_DELAY cfg)
                 (reply (Reacted p l g)
                    (snd (send_reaction cfg env c l p g (w\<lparr>drawn := Suc (drawn w)\<rparr>)))))
          \<or> process_react_account cfg env l (p, c, ss) (ledger, t) w
            = (None, (ledger(p \<mapsto> used1), failed (ReactFailedEntry p) t),
               respect_flood_limit p (REACT_DELAY cfg)
                 (reply (ReactFailed p l)
                    (snd (send_reaction cfg env c l p g (w\<lparr>drawn := Suc (drawn w)\<rparr>))))))"
proof -
  obtain g where sel: "select_emoji (EMOJIS cfg) used (pick env (drawn w))
      = (Inr g, if set (EMOJIS cfg) \<subseteq> used then {} else used)"
    and g: "g \<in> set (EMOJIS cfg)" "\<not> set (EMOJIS cfg) \<subseteq> used \<longrightarrow> g \<notin> used"
    using select_emoji_unused [OF assms(1), of used "pick env (drawn w)"] by blast
  define w0 where "w0 = w\<lparr>drawn := Suc (drawn w)\<rparr>"
  have r: "fst (send_reaction cfg env c l p g w0) = None
           \<or> fst (send_reaction cfg env c l p g w0) = Some g"
    by (rule send_reaction_result)
  obtain res w1 where s: "send_reaction cfg env c l p g w0 = (res, w1)"
    by (cases "send_reaction cfg env c l p g w0")
  have "res = None \<or> res = Some g"
    using r by (simp add: s)
  then have "process_react_account cfg env l (p, c, ss) (ledger, t) w
            = (None, (ledger(p \<mapsto> insert g (if set (EMOJIS cfg) \<subseteq> used then {} else used)),
                      succeeded (ReactedEntry p g) t),
               respect_flood_limit p (REACT_DELAY cfg) (reply (Reacted p l g) w1))
          \<or> process_react_account cfg env l (p, c, ss) (ledger, t) w
            = (None, (ledger(p \<mapsto> (if set (EMOJIS cfg) \<subseteq> used then {} else used)),
                      failed (ReactFailedEntry p) t),
               respect_flood_limit p (REACT_DELAY cfg) (reply (ReactFailed p l) w1))"
    using sel s
    by (auto simp add: process_react_account_def assms(2) [symmetric] w0_def [symmetric])
  then show ?thesis
    using sel g s by (simp add: w0_def [symmetric])
qed


lemma process_react_account_none:
  "EMOJIS cfg \<noteq> [] \<Longrightarrow> fst (process_react_account cfg env l a s w) = None"
  using process_react_account_cases [of cfg _ "fst s" "fst a" env w l "fst (snd a)" "snd (snd a)" "snd s", OF _ refl]
  by auto




lemma extends_then_process_react_account:
  assumes "EMOJIS cfg \<noteq> []" and "\<And>n. 0 \<le> uniform env n" and "extends w w1"
  shows "extends w (snd (snd (process_react_account cfg env l a s w1)))"
proof -
  have e: "extends w (respect_flood_limit p d
             (reply r (snd (send_reaction cfg env c l p g (w1\<lparr>drawn := n\<rparr>)))))"
    for p d r c g n
    using assms(2,3)
    by (intro extends_then_respect_flood_limit extends_then_reply extends_then_send_reaction
        extends_then_drawn)
  show ?thesis
    using process_react_account_cases [of cfg _ "fst s" "fst a" env w1 l "fst (snd a)" "snd (snd a)" "snd s", OF assms(1) refl]
      e
    by auto
qed

section \<open>The four executors\<close>




lemma timely_extends: "extends w w' \<Longrightarrow> list_all timely (issued w) \<Longrightarrow> list_all timely (issued w')"
  by (auto simp add: extends_def)

lemma entry_extends:
  "extends w w' \<Longrightarrow> flood_wait_until w q = Some u
    \<Longrightarrow> \<exists>u'. flood_wait_until w' q = Some u' \<and> u \<le> u'"
  by (simp add: extends_def)

text \<open>The four loops extend the world.\<close>

lemma extends_process_join_loop:
  "extends w (snd (snd (snd (process_join_loop cfg env is_set pool count link w))))"
  unfolding process_join_loop_def
  by (rule extends_then_for_accounts) (simp_all add: extends_then_process_join_account extends_refl)

lemma extends_process_leave_loop:
  "extends w (snd (snd (snd (process_leave_loop env is_set pool count link w))))"
  unfolding process_leave_loop_def
  by (rule extends_then_for_accounts) (simp_all add: extends_then_process_leave_account extends_refl)

lemma extends_process_view_loop:
  "extends w (snd (snd (snd (process_view_loop cfg env is_set pool count link w))))"
  unfolding process_view_loop_def
  by (rule extends_then_for_accounts) (simp_all add: extends_then_process_view_account extends_refl)

lemma extends_process_react_loop:
  assumes "EMOJIS cfg \<noteq> []" and "\<And>n. 0 \<le> uniform env n"
  shows "extends w (snd (snd (snd (process_react_loop cfg env is_set pool history count link w))))"
  unfolding process_react_loop_def
  by (rule extends_then_for_accounts)
    (simp_all add: extends_then_process_react_account assms extends_refl)





section \<open>A batch cut short\<close>

lemma for_accounts_cut:
  assumes none: "\<And>a s w. fst (body a s w) = None"
    and k: "k < length accounts" and set: "is_set k"
    and before: "list_all (\<lambda>j. \<not> is_set j) [0..<k]"
  shows "\<exists>s' w'. for_accounts (\<lambda>j. False) canceled body 0 (take k accounts) s w
                    = (Completed, [], s', w')
               \<and> for_accounts is_set canceled body 0 accounts s w
                    = (Stopped, drop k accounts, s', reply canceled w')"
proof -
  let ?run = "for_accounts (\<lambda>j. False) canceled body 0 (take k accounts) s w"
  obtain how remaining s' w' where run: "?run = (how, remaining, s', w')"
    by (cases ?run)
  have "how = Completed \<and> remaining = []"
    using for_accounts_completes [of body canceled 0 "take k accounts" s w, OF none]
    by (simp add: run)
  then have run': "?run = (Completed, [], s', w')"
    by (simp add: run)
  have "for_accounts is_set canceled body 0 accounts s w
          = (Stopped, drop k accounts, s', reply canceled w')"
    using for_accounts_stopped [of k accounts is_set 0 canceled body s w] k set before
    by (simp add: run' list_all_iff)
  then show ?thesis
    using run' by blast
qed

lemma take_take_less: "k < length (take count pool) \<Longrightarrow> take k (take count pool) = take k pool"
  by (auto simp add: min_def split: if_splits)

lemma process_join_cut:
  assumes "k < length (take count pool)" and "is_set k"
    and "list_all (\<lambda>j. \<not> is_set j) [0..<k]"
  shows "\<exists>locals w'.
      for_accounts (\<lambda>j. False) JoinCanceled (process_join_account cfg env count link) 0
        (take k pool) (no_tally, None) w = (Completed, [], locals, w')
      \<and> process_join_loop cfg env is_set pool count link w
           = (Stopped, drop k (take count pool), locals, reply JoinCanceled w')
      \<and> process_join cfg env is_set pool count link w = (Inr Canceled, reply JoinCanceled w')"
proof -
  obtain locals w' where
    "for_accounts (\<lambda>j. False) JoinCanceled (process_join_account cfg env count link) 0
        (take k (take count pool)) (no_tally, None) w = (Completed, [], locals, w')"
    "for_accounts is_set JoinCanceled (process_join_account cfg env count link) 0
        (take count pool) (no_tally, None) w
       = (Stopped, drop k (take count pool), locals, reply JoinCanceled w')"
    using for_accounts_cut [of "process_join_account cfg env count link" k "take count pool"
        is_set JoinCanceled "(no_tally, None)" w] assms
    by auto
  then show ?thesis
    using assms(1) by (simp add: process_join_def process_join_loop_def take_take_less)
qed

lemma process_leave_cut:
  assumes "k < length (take count pool)" and "is_set k"
    and "list_all (\<lambda>j. \<not> is_set j) [0..<k]"
  shows "\<exists>t w'.
      process_leave_loop env (\<lambda>j. False) pool k link w = (Completed, [], t, w')
      \<and> process_leave_loop env is_set pool count link w
           = (Stopped, drop k (take count pool), t, reply LeaveCanceled w')
      \<and> process_leave env is_set pool count link w = (Inr Canceled, reply LeaveCanceled w')"
proof -
  obtain t w' where
    "for_accounts (\<lambda>j. False) LeaveCanceled (process_leave_account env link) 0
        (take k (take count pool)) no_tally w = (Completed, [], t, w')"
    "for_accounts is_set LeaveCanceled (process_leave_account env link) 0
        (take count pool) no_tally w
       = (Stopped, drop k (take count pool), t, reply LeaveCanceled w')"
    using for_accounts_cut [of "process_leave_account env link" k "take count pool"
        is_set LeaveCanceled no_tally w] assms
    by auto
  then show ?thesis
    using assms(1)
    by (simp add: process_leave_def process_leave_loop_def summary_def take_take_less)
qed

lemma process_view_cut:
  assumes "k < length (take count pool)" and "is_set k"
    and "list_all (\<lambda>j. \<not> is_set j) [0..<k]"
  shows "\<exists>t w'.
      process_view_loop cfg env (\<lambda>j. False) pool k link w = (Completed, [], t, w')
      \<and> process_view_loop cfg env is_set pool count link w
           = (Stopped, drop k (take count pool), t, reply ViewCanceled w')
      \<and> process_view cfg env is_set pool count link w = (Inr Canceled, reply ViewCanceled w')"
proof -
  obtain t w' where
    "for_accounts (\<lambda>j. False) ViewCanceled (process_view_account cfg env link) 0
        (take k (take count pool)) no_tally w = (Completed, [], t, w')"
    "for_accounts is_set ViewCanceled (process_view_account cfg env link) 0
        (take count pool) no_tally w
       = (Stopped, drop k (take count pool), t, reply ViewCanceled w')"
    using for_accounts_cut [of "process_view_account cfg env link" k "take count pool"
        is_set ViewCanceled no_tally w] assms
    by auto
  then show ?thesis
    using assms(1)
    by (simp add: process_view_def process_view_loop_def summary_def take_take_less)
qed

lemma process_react_cut:
  assumes "k < length (take count pool)" and "is_set k"
    and "list_all (\<lambda>j. \<not> is_set j) [0..<k]" and "EMOJIS cfg \<noteq> []"
  shows "\<exists>locals w'.
      process_react_loop cfg env (\<lambda>j. False) pool history k link w = (Completed, [], locals, w')
      \<and> process_react_loop cfg env is_set pool history count link w
           = (Stopped, drop k (take count pool), locals, reply ReactCanceled w')
      \<and> process_react cfg env is_set pool history count link w
           = (Inr Canceled, history(link \<mapsto> fst locals), reply ReactCanceled w')"
proof -
  let ?s = "((case history link of None \<Rightarrow> Map.empty | Some ledger \<Rightarrow> ledger), no_tally)"
  obtain locals w' where
    "for_accounts (\<lambda>j. False) ReactCanceled (process_react_account cfg env link) 0
        (take k (take count pool)) ?s w = (Completed, [], locals, w')"
    "for_accounts is_set ReactCanceled (process_react_account cfg env link) 0
        (take count pool) ?s w
       = (Stopped, drop k (take count pool), locals, reply ReactCanceled w')"
    using for_accounts_cut [of "process_react_account cfg env link" k "take count pool"
        is_set ReactCanceled ?s w] assms process_react_account_none [OF assms(4)]
    by auto
  then show ?thesis
    using assms(1)
    by (simp add: process_react_def process_react_loop_def summary_def take_take_less)
qed

section \<open>The replies of a batch that is not cancelled\<close>






section \<open>The requests of the entity resolutions\<close>




lemma answered_invoke [simp]: "answered (snd (invoke env p r w)) = Suc (answered w)"
  by (simp add: invoke_def)




section \<open>Phone normalization\<close>

lemma isspace_not_isdigit: "isspace c \<Longrightarrow> \<not> isdigit c"
  by (auto simp add: isspace_def isdigit_def Let_def)

lemma filter_dropWhile_disjoint:
  "(\<And>x. Q x \<Longrightarrow> \<not> P x) \<Longrightarrow> filter P (dropWhile Q xs) = filter P xs"
  by (induction xs) auto

lemma filter_isdigit_strip: "filter isdigit (strip s) = filter isdigit s"
proof -
  have r: "filter isdigit (rev xs) = rev (filter isdigit xs)" for xs
    by (simp add: rev_filter)
  have d: "filter isdigit (dropWhile isspace xs) = filter isdigit xs" for xs
    by (rule filter_dropWhile_disjoint) (rule isspace_not_isdigit)
  show ?thesis
    by (simp add: strip_def r d)
qed

lemma plus_not_isdigit: "\<not> isdigit (CHR ''+'')"
  by (simp add: isdigit_def)

lemma plus_not_isspace: "\<not> isspace (CHR ''+'')"
  by (simp add: isspace_def)

lemma startswith_plus: "startswith s ''+'' \<longleftrightarrow> (\<exists>t. s = CHR ''+'' # t)"
  by (cases s) (auto simp add: startswith_def)

lemma normalize_phone_filter: "normalize_phone s = CHR ''+'' # filter isdigit s"
proof (cases "startswith (strip s) ''+''")
  case True
  then obtain t where t: "strip s = CHR ''+'' # t"
    by (auto simp add: startswith_plus)
  have "filter isdigit s = filter isdigit (strip s)"
    by (simp add: filter_isdigit_strip)
  also have "\<dots> = filter isdigit t"
    by (simp add: t plus_not_isdigit)
  finally have "filter isdigit (drop 1 (strip s)) = filter isdigit s"
    by (simp add: t)
  then show ?thesis
    using True by (simp add: normalize_phone_def)
next
  case False
  then show ?thesis
    by (simp add: normalize_phone_def filter_isdigit_strip)
qed

text \<open>
  Claim C9. For every input string, \<^const>\<open>normalize_phone\<close> returns a plus sign followed by
  exactly the digit characters of the input, in their order (a leading plus sign and
  every other character that is not a digit are dropped), and normalizing twice is the
  same as normalizing once.
\<close>

theorem normalize_phone_digits_idempotent:
  "normalize_phone s = CHR ''+'' # filter isdigit s
   \<and> normalize_phone (normalize_phone s) = normalize_phone s"
  by (simp add: normalize_phone_filter plus_not_isdigit)

section \<open>Rejecting a malformed phone number\<close>

lemma normalize_phone_123: "normalize_phone (strip ''123'') = ''+123''"
  by (simp add: normalize_phone_filter filter_isdigit_strip isdigit_def)

lemma phone_123_pattern: "\<not> phone_pattern ''+123''"
  by (simp add: phone_pattern_def isdecimal_def)

text \<open>
  Claim C8. When the operator is in the step that awaits the phone number and the
  normalized input does not match the pattern of a plus sign and 7 to 15 digits,
  \<^const>\<open>receive_phone\<close> only replies that the format is invalid: the conversation state
  stays as it is (in the step \<^verbatim>\<open>phone\<close>), \<^verbatim>\<open>user_clients\<close> is unchanged, and no
  remote call is issued, so no account is created.
\<close>

theorem receive_phone_rejects_malformed:
  assumes "user_states b user_id = Some st" and "st_state st = ''phone''"
    and "\<not> phone_pattern (normalize_phone (strip text))"
  shows "receive_phone env user_id text b = say InvalidPhoneFormat b
    \<and> user_states (receive_phone env user_id text b) = user_states b
    \<and> user_clients (receive_phone env user_id text b) = user_clients b
    \<and> replies (world (receive_phone env user_id text b))
        = replies (world b) @ [InvalidPhoneFormat]
    \<and> issued (world (receive_phone env user_id text b)) = issued (world b)
    \<and> flood_wait_until (world (receive_phone env user_id text b)) = flood_wait_until (world b)"
  using assms by (simp add: receive_phone_def say_def reply_def Let_def)

text \<open>The input \<^verbatim>\<open>123\<close> of the specification's scenario.\<close>

theorem receive_phone_rejects_malformed_witness:
  "user_states (bot0\<lparr>user_states := [7 \<mapsto> awaiting_phone]\<rparr>) 7 = Some awaiting_phone
   \<and> st_state awaiting_phone = ''phone''
   \<and> \<not> phone_pattern (normalize_phone (strip ''123''))
   \<and> receive_phone quiet 7 ''123'' (bot0\<lparr>user_states := [7 \<mapsto> awaiting_phone]\<rparr>)
       = say InvalidPhoneFormat (bot0\<lparr>user_states := [7 \<mapsto> awaiting_phone]\<rparr>)
   \<and> user_states (receive_phone quiet 7 ''123'' (bot0\<lparr>user_states := [7 \<mapsto> awaiting_phone]\<rparr>)) 7
       = Some awaiting_phone
   \<and> user_clients (receive_phone quiet 7 ''123'' (bot0\<lparr>user_states := [7 \<mapsto> awaiting_phone]\<rparr>)) = []
   \<and> replies (world (receive_phone quiet 7 ''123'' (bot0\<lparr>user_states := [7 \<mapsto> awaiting_phone]\<rparr>)))
       = [InvalidPhoneFormat]"
proof -
  have h1: "user_states (bot0\<lparr>user_states := [7 \<mapsto> awaiting_phone]\<rparr>) 7 = Some awaiting_phone"
    by simp
  have h2: "st_state awaiting_phone = ''phone''"
    by (simp add: awaiting_phone_def)
  have h3: "\<not> phone_pattern (normalize_phone (strip ''123''))"
    by (simp add: normalize_phone_123 phone_123_pattern)
  show ?thesis
    using receive_phone_rejects_malformed [OF h1 h2 h3, of quiet] h1 h2 h3
    by (simp add: bot0_def world0_def say_def reply_def)
qed

section \<open>Outcomes add up\<close>



section \<open>Cancellation\<close>

text \<open>
  Claim C4, as the code has it. Let the token be found set before the account of index
  \<open>k\<close> of the selection, and not before an earlier one. Then the loop stops there: the
  accounts from index \<open>k\<close> on are left over, so nothing is called, replied or counted for
  them, and the batch returns the notice of cancellation. What was produced for the
  accounts before \<open>k\<close> (the local lists, the calls and the replies already sent) is
  exactly what a batch that is never cancelled produces over those \<open>k\<close> accounts, followed
  by the one reply of cancellation. The value returned is the notice alone: it holds
  none of the earlier outcomes. (The emoji list is never empty, by lines 87 to 90.)
\<close>

theorem cancellation_stops_the_batch:
  assumes "k < length (take count pool)" and "is_set k"
    and "list_all (\<lambda>j. \<not> is_set j) [0..<k]" and "EMOJIS cfg \<noteq> []"
  shows "(\<exists>locals w'.
      for_accounts (\<lambda>j. False) JoinCanceled (process_join_account cfg env count link) 0
        (take k pool) (no_tally, None) w = (Completed, [], locals, w')
      \<and> process_join_loop cfg env is_set pool count link w
           = (Stopped, drop k (take count pool), locals, reply JoinCanceled w')
      \<and> process_join cfg env is_set pool count link w = (Inr Canceled, reply JoinCanceled w'))
    \<and> (\<exists>t w'.
      process_leave_loop env (\<lambda>j. False) pool k link w = (Completed, [], t, w')
      \<and> process_leave_loop env is_set pool count link w
           = (Stopped, drop k (take count pool), t, reply LeaveCanceled w')
      \<and> process_leave env is_set pool count link w = (Inr Canceled, reply LeaveCanceled w'))
    \<and> (\<exists>locals w'.
      process_react_loop cfg env (\<lambda>j. False) pool history k link w = (Completed, [], locals, w')
      \<and> process_react_loop cfg env is_set pool history count link w
           = (Stopped, drop k (take count pool), locals, reply ReactCanceled w')
      \<and> process_react cfg env is_set pool history count link w
           = (Inr Canceled, history(link \<mapsto> fst locals), reply ReactCanceled w'))
    \<and> (\<exists>t w'.
      process_view_loop cfg env (\<lambda>j. False) pool k link w = (Completed, [], t, w')
      \<and> process_view_loop cfg env is_set pool count link w
           = (Stopped, drop k (take count pool), t, reply ViewCanceled w')
      \<and> process_view cfg env is_set pool count link w = (Inr Canceled, reply ViewCanceled w'))"
  using process_join_cut [OF assms(1-3)] process_leave_cut [OF assms(1-3)]
    process_react_cut [OF assms] process_view_cut [OF assms(1-3)]
  by (intro conjI) blast+

text \<open>
  A join over two accounts, cancelled before the second: the first account has joined
  and is in \<^verbatim>\<open>success_list\<close> and in the replies, the second is left over and no call
  was issued for it.
\<close>

theorem cancellation_stops_the_batch_witness:
  "(1::nat) < length (take 2 pool3)
   \<and> list_all (\<lambda>j. j \<noteq> (1::nat)) [0..<1]
   \<and> EMOJIS cfg1 \<noteq> []
   \<and> (\<exists>locals w'.
        for_accounts (\<lambda>j. False) JoinCanceled (process_join_account cfg1 quiet 2 channel_link) 0
          (take 1 pool3) (no_tally, None) world0 = (Completed, [], locals, w')
        \<and> process_join_loop cfg1 quiet (\<lambda>i. i = 1) pool3 2 channel_link world0
             = (Stopped, drop 1 (take 2 pool3), locals, reply JoinCanceled w')
        \<and> process_join cfg1 quiet (\<lambda>i. i = 1) pool3 2 channel_link world0
             = (Inr Canceled, reply JoinCanceled w'))
   \<and> map fst (fst (snd (process_join_loop cfg1 quiet (\<lambda>i. i = 1) pool3 2 channel_link world0)))
       = [''+10000002'']
   \<and> map call_phone (issued (snd (process_join cfg1 quiet (\<lambda>i. i = 1) pool3 2 channel_link
        world0))) = [''+10000001'', ''+10000001'']"
proof -
  have h1: "(1::nat) < length (take 2 pool3)"
    by (simp add: pool3_def)
  have h2: "(\<lambda>i. i = (1::nat)) 1"
    by simp
  have h3: "list_all (\<lambda>j. \<not> (\<lambda>i. i = (1::nat)) j) [0..<1]"
    by simp
  have h4: "EMOJIS cfg1 \<noteq> []"
    by (simp add: cfg1_def)
  have e: "map fst (fst (snd (process_join_loop cfg1 quiet (\<lambda>i. i = 1) pool3 2 channel_link
              world0))) = [''+10000002'']
    \<and> map call_phone (issued (snd (process_join cfg1 quiet (\<lambda>i. i = 1) pool3 2 channel_link
        world0))) = [''+10000001'', ''+10000001'']"
    by (simp add: model_defs example_defs)
  show ?thesis
    using cancellation_stops_the_batch [OF h1 h2 h3 h4, where env = quiet
        and link = channel_link and w = world0, THEN conjunct1] h1 h3 h4 e
    by simp
qed

text \<open>
  The claim as stated has the earlier outcomes intact in the result the batch reports.
  In the same run the value returned by \<^const>\<open>process_join\<close> is the notice of
  cancellation, which holds no line, while \<^verbatim>\<open>success_list\<close> held the line of the first
  account; that line reached the operator only as the reply sent when the account
  joined.
\<close>

theorem cancellation_drops_earlier_outcomes:
  "fst (process_join cfg1 quiet (\<lambda>i. i = 1) pool3 2 channel_link world0) = Inr Canceled
   \<and> success_list (fst (fst (snd (snd
        (process_join_loop cfg1 quiet (\<lambda>i. i = 1) pool3 2 channel_link world0)))))
       = [JoinedEntry ''+10000001'']
   \<and> JoinedEntry ''+10000001'' \<notin> set (entries Canceled)
   \<and> replies (snd (process_join cfg1 quiet (\<lambda>i. i = 1) pool3 2 channel_link world0))
       = [Joined ''+10000001'' ''https://t.me/chan'', JoinCanceled]"
  by (simp add: model_defs example_defs)

section \<open>The first accounts of the registry\<close>



section \<open>Waiting for the flood clock\<close>

text \<open>
  Claim C3, as the code has it. The four executors call the remote side for an account
  only when the account's entry in \<^verbatim>\<open>flood_wait_until\<close> has passed: if the calls
  logged before a batch were timely, so are all the calls logged after it, whatever the
  remote side answers. (The random part of a wait is not negative, as
  \<^verbatim>\<open>random.uniform(0, 2)\<close> is not; the emoji list is never empty, by lines 87 to
  90; the batch runs alone, no other handler changes the flood clock in between.) The
  wait routine \<^const>\<open>respect_flood_limit\<close> ends with the
  entry passed: it sleeps up to the entry read at its start when that is later than the
  clock, and then for the delay given when that is positive. The handlers outside the
  executors do not call the wait routine.
\<close>

theorem executors_call_after_the_wait:
  assumes "list_all timely (issued w)" and "\<And>n. 0 \<le> uniform env n" and "EMOJIS cfg \<noteq> []"
  shows "list_all timely
           (issued (snd (snd (snd (process_join_loop cfg env is_set pool count link w)))))
    \<and> list_all timely
           (issued (snd (snd (snd (process_leave_loop env is_set pool count link w)))))
    \<and> list_all timely
           (issued (snd (snd (snd (process_react_loop cfg env is_set pool history count link w)))))
    \<and> list_all timely
           (issued (snd (snd (snd (process_view_loop cfg env is_set pool count link w)))))
    \<and> passed phone (respect_flood_limit phone delay w)
    \<and> clock (respect_flood_limit phone delay w)
        = (case flood_wait_until w phone of
             None \<Rightarrow> clock w
           | Some wait_until \<Rightarrow> max (clock w) wait_until)
          + (if 0 < delay then delay else 0)"
  using assms(1)
    timely_extends [OF extends_process_join_loop]
    timely_extends [OF extends_process_leave_loop]
    timely_extends [OF extends_process_react_loop, OF assms(3) assms(2)]
    timely_extends [OF extends_process_view_loop]
  by (simp add: passed_respect_flood_limit respect_flood_limit_clock)

text \<open>
  A join of the first account at time 80, when the account has to wait until time 100:
  both remote calls are issued at time 100.
\<close>

theorem executors_call_after_the_wait_witness:
  "list_all timely (issued waiting_world)
   \<and> EMOJIS cfg1 \<noteq> []
   \<and> list_all timely
        (issued (snd (snd (snd
           (process_join_loop cfg1 quiet (\<lambda>i. False) pool3 1 channel_link waiting_world)))))
   \<and> map call_time
        (issued (snd (snd (snd
           (process_join_loop cfg1 quiet (\<lambda>i. False) pool3 1 channel_link waiting_world)))))
       = [100, 100]
   \<and> clock (respect_flood_limit ''+10000001'' 1 waiting_world) = 101"
proof -
  have h1: "list_all timely (issued waiting_world)"
    by (simp add: waiting_world_def world0_def)
  have h2: "0 \<le> uniform quiet n" for n
    by (simp add: quiet_def)
  have h3: "EMOJIS cfg1 \<noteq> []"
    by (simp add: cfg1_def)
  have e: "map call_time
        (issued (snd (snd (snd
           (process_join_loop cfg1 quiet (\<lambda>i. False) pool3 1 channel_link waiting_world)))))
       = [100, 100]
    \<and> clock (respect_flood_limit ''+10000001'' 1 waiting_world) = 101"
    by (simp add: model_defs example_defs)
  show ?thesis
    using executors_call_after_the_wait [OF h1 h2 h3, where is_set = "\<lambda>i. False"
        and pool = pool3 and count = 1 and link = channel_link, THEN conjunct1] h1 h3 e
    by simp
qed

text \<open>
  The claim as stated covers every remote call for an account. The account listing
  \<^const>\<open>info\<close> asks the remote side for the account's own user at time 80 although the
  account has to wait until time 100, and \<^const>\<open>receive_phone\<close> requests the login code
  for a number at time 10 although the number has to wait until time 1000: neither
  consults \<^verbatim>\<open>flood_wait_until\<close>.
\<close>

theorem calls_issued_before_wait_until:
  "flood_wait_until waiting_world ''+10000001'' = Some 100
   \<and> clock waiting_world = 80
   \<and> issued (info quiet (take 1 pool3) waiting_world)
       = [\<lparr>call_time = 80, call_phone = ''+10000001'', call_request = GetMe,
           call_wait_until = Some 100\<rparr>]
   \<and> \<not> list_all timely (issued (info quiet (take 1 pool3) waiting_world))
   \<and> flood_wait_until (world late_bot) ''+1234567'' = Some 1000
   \<and> issued (world (receive_phone quiet 7 ''+1234567'' late_bot))
       = [\<lparr>call_time = 10, call_phone = ''+1234567'', call_request = SendCodeRequest,
           call_wait_until = Some 1000\<rparr>]
   \<and> \<not> list_all timely (issued (world (receive_phone quiet 7 ''+1234567'' late_bot)))"
  by (simp add: handler_defs model_defs example_defs timely_def)

section \<open>Registering a flood wait\<close>

lemma passed_max:
  "passed phone w \<Longrightarrow> 0 \<le> s \<Longrightarrow> flood_wait_until w phone = Some current
    \<Longrightarrow> clock w + s = max current (clock w + s)"
  by (simp add: passed_def max_def)

lemma flood_join_channel_entity [simp]:
  "flood_wait_until (snd (join_channel_entity env p n w)) = flood_wait_until w"
  by (simp add: join_channel_entity_def split_beta split: sum.splits exn.splits)

lemma flood_join_channel_public [simp]:
  "flood_wait_until (snd (join_channel_public cfg env p l w)) = flood_wait_until w"
  by (simp add: join_channel_public_def Let_def split_beta split: sum.splits)

lemma flood_send_reaction_entity [simp]:
  "flood_wait_until (snd (send_reaction_entity env p n w)) = flood_wait_until w"
  by (simp add: send_reaction_entity_def split_beta split: sum.splits exn.splits option.splits)

lemma flood_send_view_entity [simp]:
  "flood_wait_until (snd (send_view_entity env p n w)) = flood_wait_until w"
  by (simp add: send_view_entity_def split_beta split: option.splits)

lemma join_channel_public_unregistered:
  "\<not> startswith l ''https://t.me/+''
    \<Longrightarrow> flood_wait_until (snd (join_channel cfg env c l p w)) = flood_wait_until w"
  by (simp add: join_channel_def split_beta split: bool.splits)

lemma join_channel_private_registered:
  assumes "startswith l ''https://t.me/+''"
    and "takeWhile (\<lambda>c. c \<noteq> CHR ''+'') (drop 14 l) \<noteq> []"
    and "fst (ensure_connected env c p w)"
    and "snd (answer env (answered (snd (ensure_connected env c p w))))
           = Inl (FloodWaitError seconds)"
  shows "\<not> fst (join_channel cfg env c l p w)
    \<and> flood_wait_until (snd (join_channel cfg env c l p w))
        = (flood_wait_until w)(p \<mapsto> clock (snd (join_channel cfg env c l p w)) + real seconds)"
proof -
  obtain w1 where e: "ensure_connected env c p w = (True, w1)"
    using assms(3) by (cases "ensure_connected env c p w") auto
  have f: "flood_wait_until w1 = flood_wait_until w"
    using ensure_connected_fields(2) [of env c p w] by (simp add: e)
  have a: "snd (answer env (answered w1)) = Inl (FloodWaitError seconds)"
    using assms(4) by (simp add: e)
  show ?thesis
    using assms(1,2) a f
    by (simp add: join_channel_def join_channel_private_def e Let_def invoke_def)
qed

lemma send_view_registered:
  assumes "extract_message_info l = Some (cid, mid)" and "cid \<noteq> []" and "mid \<noteq> 0"
    and "fst (ensure_connected env c p w)"
    and "fst (send_view_entity env p cid
               (respect_flood_limit p 0 (snd (ensure_connected env c p w))))
           = Inl (FloodWaitError seconds)
         \<or> (\<exists>chat. fst (send_view_entity env p cid
                          (respect_flood_limit p 0 (snd (ensure_connected env c p w))))
                      = Inr chat)
           \<and> snd (answer env (answered (snd (send_view_entity env p cid
                     (respect_flood_limit p 0 (snd (ensure_connected env c p w)))))))
               = Inl (FloodWaitError seconds)"
  shows "\<not> fst (send_view env c l p w)
    \<and> flood_wait_until (snd (send_view env c l p w))
        = (flood_wait_until w)(p \<mapsto> clock (snd (send_view env c l p w)) + real seconds)"
proof -
  obtain w1 where e: "ensure_connected env c p w = (True, w1)"
    using assms(4) by (cases "ensure_connected env c p w") auto
  have f: "flood_wait_until w1 = flood_wait_until w"
    using ensure_connected_fields(2) [of env c p w] by (simp add: e)
  obtain r w2 where v: "send_view_entity env p cid (respect_flood_limit p 0 w1) = (r, w2)"
    by (cases "send_view_entity env p cid (respect_flood_limit p 0 w1)")
  have g: "flood_wait_until w2 = flood_wait_until w"
    using flood_send_view_entity [of env p cid "respect_flood_limit p 0 w1"] f by (simp add: v)
  have "r = Inl (FloodWaitError seconds)
      \<or> (\<exists>chat. r = Inr chat) \<and> snd (answer env (answered w2)) = Inl (FloodWaitError seconds)"
    using assms(5) by (simp add: e v)
  then show ?thesis
    using assms(1,2,3) g
    by (auto simp add: send_view_def e v invoke_def)
qed

lemma send_reaction_attempt_registered:
  assumes "snd (answer env (answered v)) = Inl (FloodWaitError seconds)"
    and "0 \<le> uniform env (drawn v)"
  shows "\<exists>v2. send_reaction_attempts cfg env c p cid chat mid emoji (Suc left) v
          = (if left = 0 then (None, v2)
             else send_reaction_attempts cfg env c p cid chat mid emoji left v2)
      \<and> flood_wait_until v2
          = (flood_wait_until v)(p \<mapsto> clock v + real (fst (answer env (answered v)))
                                       + (real seconds + uniform env (drawn v)))
      \<and> clock v2 = clock v + real (fst (answer env (answered v)))
                     + (real seconds + uniform env (drawn v))"
proof -
  define v1 where "v1 = snd (invoke env p (SendReactionRequest chat mid emoji) v)"
  define wait_time where "wait_time = real seconds + uniform env (drawn v1)"
  define v2 where
    "v2 = sleep wait_time (register_flood_wait p wait_time (v1\<lparr>drawn := Suc (drawn v1)\<rparr>))"
  have i: "invoke env p (SendReactionRequest chat mid emoji) v
      = (Inl (FloodWaitError seconds), v1)"
    using assms(1) by (simp add: v1_def invoke_def)
  have d: "drawn v1 = drawn v" "flood_wait_until v1 = flood_wait_until v"
    "clock v1 = clock v + real (fst (answer env (answered v)))"
    by (simp_all add: v1_def invoke_def)
  have "send_reaction_attempts cfg env c p cid chat mid emoji (Suc left) v
          = (if left = 0 then (None, v2)
             else send_reaction_attempts cfg env c p cid chat mid emoji left v2)"
    by (simp add: i Let_def v2_def wait_time_def)
  moreover have "flood_wait_until v2
          = (flood_wait_until v)(p \<mapsto> clock v + real (fst (answer env (answered v)))
                                       + (real seconds + uniform env (drawn v)))"
    by (simp add: v2_def wait_time_def d)
  moreover have "clock v2 = clock v + real (fst (answer env (answered v)))
                     + (real seconds + uniform env (drawn v))"
    using assms(2) by (simp add: v2_def wait_time_def d sleep_def register_flood_wait_def)
  ultimately show ?thesis
    by blast
qed

lemma send_reaction_unregistered:
  assumes "extract_message_info l = Some (cid, mid)" and "cid \<noteq> []" and "mid \<noteq> 0"
    and "fst (ensure_connected env c p w)"
    and "fst (send_reaction_entity env p cid
               (respect_flood_limit p 0 (snd (ensure_connected env c p w)))) = Inl e"
  shows "fst (send_reaction cfg env c l p emoji w) = None
    \<and> flood_wait_until (snd (send_reaction cfg env c l p emoji w)) = flood_wait_until w"
proof -
  obtain w1 where e: "ensure_connected env c p w = (True, w1)"
    using assms(4) by (cases "ensure_connected env c p w") auto
  have f: "flood_wait_until w1 = flood_wait_until w"
    using ensure_connected_fields(2) [of env c p w] by (simp add: e)
  obtain r w2 where v: "send_reaction_entity env p cid (respect_flood_limit p 0 w1) = (r, w2)"
    by (cases "send_reaction_entity env p cid (respect_flood_limit p 0 w1)")
  have g: "flood_wait_until w2 = flood_wait_until w"
    using flood_send_reaction_entity [of env p cid "respect_flood_limit p 0 w1"] f
    by (simp add: v)
  show ?thesis
    using assms(1,2,3,5) g by (simp add: send_reaction_def e v)
qed

lemma receive_phone_registered:
  assumes "user_states b user_id = Some st" and "st_state st = ''phone''"
    and "phone_pattern (normalize_phone (strip message_text))"
    and "normalize_phone (strip message_text) \<notin> set (map fst (user_clients b))"
    and "fst (ensure_connected env (TelegramClient (normalize_phone (strip message_text)))
               (normalize_phone (strip message_text)) (world b))"
    and "snd (answer env (answered (snd (ensure_connected env
               (TelegramClient (normalize_phone (strip message_text)))
               (normalize_phone (strip message_text)) (world b)))))
           = Inl (FloodWaitError seconds)"
  shows "flood_wait_until (world (receive_phone env user_id message_text b))
      = (flood_wait_until (world b))
          (normalize_phone (strip message_text)
             \<mapsto> clock (world (receive_phone env user_id message_text b)) + real seconds)"
proof -
  define p where "p = normalize_phone (strip message_text)"
  obtain w1 where e: "ensure_connected env (TelegramClient p) p (world b) = (True, w1)"
    using assms(5) unfolding p_def [symmetric]
    by (cases "ensure_connected env (TelegramClient p) p (world b)") auto
  have f: "flood_wait_until w1 = flood_wait_until (world b)"
    using ensure_connected_fields(2) [of env "TelegramClient p" p "world b"] by (simp add: e)
  have a: "snd (answer env (answered w1)) = Inl (FloodWaitError seconds)"
    using assms(6) unfolding p_def [symmetric] by (simp add: e)
  show ?thesis
    using assms(1,2,3,4) a f unfolding p_def [symmetric]
    by (simp add: receive_phone_def Let_def p_def [symmetric] e invoke_def say_def forget_def)
qed

text \<open>
  Claim C2, as the code has it. The handlers of \<^verbatim>\<open>FloodWaitError\<close> overwrite the
  account's entry in \<^verbatim>\<open>flood_wait_until\<close>; none takes a maximum with the entry it
  replaces, and not every flood wait is registered.

  \<^item> The statement of registration writes the time of the clock plus its argument \<open>s\<close>.
    When the entry has passed, as it has after the wait routine, and \<open>s\<close> is not
    negative, that value is the maximum of the entry and the clock plus \<open>s\<close>.
  \<^item> The handler of \<^verbatim>\<open>process_leave\<close> (line 811) writes the clock plus the seconds of
    the error.
  \<^item> \<^verbatim>\<open>join_channel\<close> on a link of invitation, once connected, when the request is
    answered with a flood wait: it returns \<^verbatim>\<open>False\<close>, and the entry is the time of
    its return plus the seconds of the error (line 1344). On any other link it leaves
    \<^verbatim>\<open>flood_wait_until\<close> as it is, whatever the remote side answers: the handlers of
    the public branch catch the flood wait (line 1339).
  \<^item> \<^verbatim>\<open>send_view\<close>, once connected, when the resolution of the chat or the request is
    answered with a flood wait: it returns \<^verbatim>\<open>False\<close>, and the entry is the time of its
    return plus the seconds of the error (line 1477).
  \<^item> An attempt of \<^verbatim>\<open>send_reaction\<close> answered with a flood wait (lines 1398 to 1400)
    writes the time of the handler, which is the time of issue plus the time the call
    took, plus the seconds of the error plus the value of \<^verbatim>\<open>random.uniform(0, 2)\<close>, and
    sleeps until that time before the next attempt, or before it returns if this was
    the last. An error of the resolution of the chat in \<^verbatim>\<open>send_reaction\<close>, a flood wait
    too, is not registered (line 1375).
  \<^item> \<^verbatim>\<open>receive_phone\<close>, once connected, when the request for the code is answered
    with a flood wait: the entry of the normalized number is the time of its return plus
    the seconds of the error (line 1003). It does not call the wait routine first.
  \<^item> In \<^verbatim>\<open>join_channel\<close> and in the four executors every registration follows the
    wait routine for the same account, so no entry of \<^verbatim>\<open>flood_wait_until\<close> is removed
    or decreased by them.

  (The batch runs alone, the random part of a wait is not negative, and the emoji list is
  never empty, by lines 87 to 90.)
\<close>

theorem flood_wait_is_overwritten:
  assumes "flood_wait_until w q = Some u" and "\<And>n. 0 \<le> uniform env n" and "EMOJIS cfg \<noteq> []"
  shows "flood_wait_until (register_flood_wait phone s w) phone = Some (clock w + s)
    \<and> (passed phone w \<and> 0 \<le> s
        \<longrightarrow> (case flood_wait_until w phone of
               None \<Rightarrow> True
             | Some current \<Rightarrow>
                 flood_wait_until (register_flood_wait phone s w) phone
                   = Some (max current (clock w + s))))
    \<and> flood_wait_until
          (snd (snd (process_leave_failed link phone (FloodWaitError seconds) t w))) phone
        = Some (clock w + real seconds)
    \<and> (startswith invite ''https://t.me/+''
        \<and> takeWhile (\<lambda>c. c \<noteq> CHR ''+'') (drop 14 invite) \<noteq> []
        \<and> fst (ensure_connected env client phone w)
        \<and> snd (answer env (answered (snd (ensure_connected env client phone w))))
            = Inl (FloodWaitError seconds)
        \<longrightarrow> \<not> fst (join_channel cfg env client invite phone w)
          \<and> flood_wait_until (snd (join_channel cfg env client invite phone w))
              = (flood_wait_until w)
                  (phone \<mapsto> clock (snd (join_channel cfg env client invite phone w))
                                + real seconds))
    \<and> (\<not> startswith link ''https://t.me/+''
        \<longrightarrow> flood_wait_until (snd (join_channel cfg env client link phone w))
            = flood_wait_until w)
    \<and> (extract_message_info msg_link = Some (chat_identifier, message_id)
        \<and> chat_identifier \<noteq> [] \<and> message_id \<noteq> 0
        \<and> fst (ensure_connected env client phone w)
        \<and> (fst (send_view_entity env phone chat_identifier
                  (respect_flood_limit phone 0 (snd (ensure_connected env client phone w))))
              = Inl (FloodWaitError seconds)
            \<or> (\<exists>chat. fst (send_view_entity env phone chat_identifier
                             (respect_flood_limit phone 0
                                (snd (ensure_connected env client phone w))))
                         = Inr chat)
              \<and> snd (answer env (answered (snd (send_view_entity env phone chat_identifier
                        (respect_flood_limit phone 0
                           (snd (ensure_connected env client phone w)))))))
                  = Inl (FloodWaitError seconds))
        \<longrightarrow> \<not> fst (send_view env client msg_link phone w)
          \<and> flood_wait_until (snd (send_view env client msg_link phone w))
              = (flood_wait_until w)
                  (phone \<mapsto> clock (snd (send_view env client msg_link phone w))
                                + real seconds))
    \<and> (snd (answer env (answered v)) = Inl (FloodWaitError seconds)
        \<longrightarrow> (\<exists>v2. send_reaction_attempts cfg env client phone chat_identifier chat message_id
                     emoji (Suc left) v
                   = (if left = 0 then (None, v2)
                      else send_reaction_attempts cfg env client phone chat_identifier chat
                             message_id emoji left v2)
                 \<and> flood_wait_until v2
                     = (flood_wait_until v)
                         (phone \<mapsto> clock v + real (fst (answer env (answered v)))
                                       + (real seconds + uniform env (drawn v)))
                 \<and> clock v2 = clock v + real (fst (answer env (answered v)))
                                + (real seconds + uniform env (drawn v))))
    \<and> (extract_message_info msg_link = Some (chat_identifier, message_id)
        \<and> chat_identifier \<noteq> [] \<and> message_id \<noteq> 0
        \<and> fst (ensure_connected env client phone w)
        \<and> fst (send_reaction_entity env phone chat_identifier
                 (respect_flood_limit phone 0 (snd (ensure_connected env client phone w))))
            = Inl e
        \<longrightarrow> fst (send_reaction cfg env client msg_link phone emoji w) = None
          \<and> flood_wait_until (snd (send_reaction cfg env client msg_link phone emoji w))
              = flood_wait_until w)
    \<and> (user_states b user_id = Some st \<and> st_state st = ''phone''
        \<and> phone_pattern (normalize_phone (strip message_text))
        \<and> normalize_phone (strip message_text) \<notin> set (map fst (user_clients b))
        \<and> fst (ensure_connected env (TelegramClient (normalize_phone (strip message_text)))
                 (normalize_phone (strip message_text)) (world b))
        \<and> snd (answer env (answered (snd (ensure_connected env
                 (TelegramClient (normalize_phone (strip message_text)))
                 (normalize_phone (strip message_text)) (world b)))))
            = Inl (FloodWaitError seconds)
        \<longrightarrow> flood_wait_until (world (receive_phone env user_id message_text b))
            = (flood_wait_until (world b))
                (normalize_phone (strip message_text)
                   \<mapsto> clock (world (receive_phone env user_id message_text b)) + real seconds))
    \<and> (\<exists>u'. flood_wait_until (snd (join_channel cfg env client link phone w)) q = Some u'
              \<and> u \<le> u')
    \<and> (\<exists>u'. flood_wait_until
                (snd (snd (snd (process_join_loop cfg env is_set pool count link w)))) q = Some u'
              \<and> u \<le> u')
    \<and> (\<exists>u'. flood_wait_until
                (snd (snd (snd (process_leave_loop env is_set pool count link w)))) q = Some u'
              \<and> u \<le> u')
    \<and> (\<exists>u'. flood_wait_until
                (snd (snd (snd (process_react_loop cfg env is_set pool history count link w)))) q
                = Some u'
              \<and> u \<le> u')
    \<and> (\<exists>u'. flood_wait_until
                (snd (snd (snd (process_view_loop cfg env is_set pool count link w)))) q = Some u'
              \<and> u \<le> u')"
proof -
  have a: "flood_wait_until (register_flood_wait phone s w) phone = Some (clock w + s)"
    by simp
  have b: "(passed phone w \<and> 0 \<le> s
      \<longrightarrow> (case flood_wait_until w phone of
             None \<Rightarrow> True
           | Some current \<Rightarrow>
               flood_wait_until (register_flood_wait phone s w) phone
                 = Some (max current (clock w + s))))"
    using passed_max [of phone w s] by (simp split: option.splits)
  have c: "flood_wait_until
        (snd (snd (process_leave_failed link phone (FloodWaitError seconds) t w))) phone
      = Some (clock w + real seconds)"
    by (simp add: process_leave_failed_def)
  have by_invite: "(startswith invite ''https://t.me/+''
      \<and> takeWhile (\<lambda>c. c \<noteq> CHR ''+'') (drop 14 invite) \<noteq> []
      \<and> fst (ensure_connected env client phone w)
      \<and> snd (answer env (answered (snd (ensure_connected env client phone w))))
          = Inl (FloodWaitError seconds)
      \<longrightarrow> \<not> fst (join_channel cfg env client invite phone w)
        \<and> flood_wait_until (snd (join_channel cfg env client invite phone w))
            = (flood_wait_until w)
                (phone \<mapsto> clock (snd (join_channel cfg env client invite phone w))
                              + real seconds))"
    using join_channel_private_registered [where l = invite and env = env
        and c = client and p = phone and w = w and seconds = seconds and cfg = cfg]
    by blast
  have by_name: "(\<not> startswith link ''https://t.me/+''
      \<longrightarrow> flood_wait_until (snd (join_channel cfg env client link phone w))
          = flood_wait_until w)"
    using join_channel_public_unregistered [where l = link and env = env
        and c = client and p = phone and w = w and cfg = cfg]
    by blast
  have viewed: "(extract_message_info msg_link = Some (chat_identifier, message_id)
      \<and> chat_identifier \<noteq> [] \<and> message_id \<noteq> 0
      \<and> fst (ensure_connected env client phone w)
      \<and> (fst (send_view_entity env phone chat_identifier
                (respect_flood_limit phone 0 (snd (ensure_connected env client phone w))))
            = Inl (FloodWaitError seconds)
          \<or> (\<exists>chat. fst (send_view_entity env phone chat_identifier
                           (respect_flood_limit phone 0
                              (snd (ensure_connected env client phone w))))
                       = Inr chat)
            \<and> snd (answer env (answered (snd (send_view_entity env phone chat_identifier
                      (respect_flood_limit phone 0
                         (snd (ensure_connected env client phone w)))))))
                = Inl (FloodWaitError seconds))
      \<longrightarrow> \<not> fst (send_view env client msg_link phone w)
        \<and> flood_wait_until (snd (send_view env client msg_link phone w))
            = (flood_wait_until w)
                (phone \<mapsto> clock (snd (send_view env client msg_link phone w))
                              + real seconds))"
    using send_view_registered [where l = msg_link and cid = chat_identifier
        and mid = message_id and env = env and c = client and p = phone and w = w
        and seconds = seconds]
    by blast
  have attempt: "(snd (answer env (answered v)) = Inl (FloodWaitError seconds)
      \<longrightarrow> (\<exists>v2. send_reaction_attempts cfg env client phone chat_identifier chat message_id
                   emoji (Suc left) v
                 = (if left = 0 then (None, v2)
                    else send_reaction_attempts cfg env client phone chat_identifier chat
                           message_id emoji left v2)
               \<and> flood_wait_until v2
                   = (flood_wait_until v)
                       (phone \<mapsto> clock v + real (fst (answer env (answered v)))
                                     + (real seconds + uniform env (drawn v)))
               \<and> clock v2 = clock v + real (fst (answer env (answered v)))
                              + (real seconds + uniform env (drawn v))))"
    using send_reaction_attempt_registered [where env = env and v = v
        and seconds = seconds and cfg = cfg and c = client and p = phone
        and cid = chat_identifier and chat = chat and mid = message_id and emoji = emoji
        and left = left, OF _ assms(2)]
    by blast
  have resolution: "(extract_message_info msg_link = Some (chat_identifier, message_id)
      \<and> chat_identifier \<noteq> [] \<and> message_id \<noteq> 0
      \<and> fst (ensure_connected env client phone w)
      \<and> fst (send_reaction_entity env phone chat_identifier
               (respect_flood_limit phone 0 (snd (ensure_connected env client phone w))))
          = Inl e
      \<longrightarrow> fst (send_reaction cfg env client msg_link phone emoji w) = None
        \<and> flood_wait_until (snd (send_reaction cfg env client msg_link phone emoji w))
            = flood_wait_until w)"
    using send_reaction_unregistered [where l = msg_link
        and cid = chat_identifier and mid = message_id and env = env and c = client
        and p = phone and w = w and e = e and cfg = cfg and emoji = emoji]
    by blast
  have login: "(user_states b user_id = Some st \<and> st_state st = ''phone''
      \<and> phone_pattern (normalize_phone (strip message_text))
      \<and> normalize_phone (strip message_text) \<notin> set (map fst (user_clients b))
      \<and> fst (ensure_connected env (TelegramClient (normalize_phone (strip message_text)))
               (normalize_phone (strip message_text)) (world b))
      \<and> snd (answer env (answered (snd (ensure_connected env
               (TelegramClient (normalize_phone (strip message_text)))
               (normalize_phone (strip message_text)) (world b)))))
          = Inl (FloodWaitError seconds)
      \<longrightarrow> flood_wait_until (world (receive_phone env user_id message_text b))
          = (flood_wait_until (world b))
              (normalize_phone (strip message_text)
                 \<mapsto> clock (world (receive_phone env user_id message_text b)) + real seconds))"
    using receive_phone_registered [where b = b and user_id = user_id and st = st
        and message_text = message_text and env = env and seconds = seconds]
    by blast
  have d: "(\<exists>u'. flood_wait_until (snd (join_channel cfg env client link phone w)) q = Some u'
            \<and> u \<le> u')"
    using entry_extends [OF extends_then_join_channel [OF extends_refl] assms(1)] .
  have j: "(\<exists>u'. flood_wait_until
              (snd (snd (snd (process_join_loop cfg env is_set pool count link w)))) q = Some u'
            \<and> u \<le> u')"
    using entry_extends [OF extends_process_join_loop assms(1)] .
  have l: "(\<exists>u'. flood_wait_until
              (snd (snd (snd (process_leave_loop env is_set pool count link w)))) q = Some u'
            \<and> u \<le> u')"
    using entry_extends [OF extends_process_leave_loop assms(1)] .
  have r: "(\<exists>u'. flood_wait_until
              (snd (snd (snd (process_react_loop cfg env is_set pool history count link w)))) q
              = Some u'
            \<and> u \<le> u')"
    using entry_extends [OF extends_process_react_loop assms(1), OF assms(3) assms(2)] .
  have v: "(\<exists>u'. flood_wait_until
              (snd (snd (snd (process_view_loop cfg env is_set pool count link w)))) q = Some u'
            \<and> u \<le> u')"
    using entry_extends [OF extends_process_view_loop assms(1)] .
  from a b c by_invite by_name viewed attempt resolution login d j l r v show ?thesis
    by (intro conjI) assumption+
qed

text \<open>
  The first account has to wait until time 100, and the clock is at 80. With a flood
  wait of 5 seconds as the answer to the first request, which is issued at time 100:
  a leave, a join by a link of invitation and a view set the entry to 105; a join by a
  public link and a reaction, where the resolution of the chat raises it, leave the
  entry at 100. With the flood wait as the answer to the reaction request and a random
  wait of half a second, the entry becomes 105.5. An operator who sends a phone number
  at time 10, when the request for the code is answered with that flood wait, leaves the
  entry of the normalized number at 15.
\<close>

theorem flood_wait_is_overwritten_witness:
  "flood_wait_until waiting_world ''+10000001'' = Some 100
   \<and> clock waiting_world = 80
   \<and> EMOJIS cfg1 \<noteq> []
   \<and> snd (answer limited 1) = Inl (FloodWaitError 5)
   \<and> snd (answer jittery 2) = Inl (FloodWaitError 5)
   \<and> uniform jittery 0 = 1 / 2
   \<and> flood_wait_until (register_flood_wait ''+10000001'' 30 waiting_world) ''+10000001''
       = Some 110
   \<and> flood_wait_until
        (snd (snd (snd (process_leave_loop limited (\<lambda>i. False) pool3 1 channel_link
           waiting_world)))) ''+10000001''
       = Some 105
   \<and> flood_wait_until
        (snd (join_channel cfg1 limited (TelegramClient ''+10000001'') private_link
           ''+10000001'' waiting_world)) ''+10000001''
       = Some 105
   \<and> flood_wait_until
        (snd (join_channel cfg1 limited (TelegramClient ''+10000001'') channel_link
           ''+10000001'' waiting_world)) ''+10000001''
       = Some 100
   \<and> flood_wait_until
        (snd (send_view limited (TelegramClient ''+10000001'') message_link ''+10000001''
           waiting_world)) ''+10000001''
       = Some 105
   \<and> flood_wait_until
        (snd (send_reaction cfg1 limited (TelegramClient ''+10000001'') message_link
           ''+10000001'' ''fire'' waiting_world)) ''+10000001''
       = Some 100
   \<and> flood_wait_until
        (snd (send_reaction_attempts cfg1 jittery (TelegramClient ''+10000001'') ''+10000001''
           ''chan'' 7 5 ''fire'' (Suc 0) (waiting_world\<lparr>clock := 100, answered := 2\<rparr>)))
        ''+10000001''
       = Some (211 / 2)
   \<and> flood_wait_until
        (snd (send_reaction cfg1 jittery (TelegramClient ''+10000001'') message_link
           ''+10000001'' ''fire'' waiting_world)) ''+10000001''
       = Some (211 / 2)
   \<and> flood_wait_until
        (world (receive_phone limited 7 ''+1 (234) 567''
                  (late_bot\<lparr>world := world0\<lparr>clock := 10\<rparr>\<rparr>))) ''+1234567''
       = Some 15"
proof -
  have h1: "flood_wait_until waiting_world ''+10000001'' = Some 100"
    and k: "clock waiting_world = 80"
    by (simp_all add: waiting_world_def world0_def)
  have h2: "0 \<le> uniform limited n" and h2': "0 \<le> uniform jittery n" for n
    by (simp_all add: limited_def jittery_def)
  have h3: "EMOJIS cfg1 \<noteq> []"
    by (simp add: cfg1_def)
  have a1: "snd (answer limited 1) = Inl (FloodWaitError 5)"
    and a2: "snd (answer jittery 2) = Inl (FloodWaitError 5)"
    and a3: "uniform jittery 0 = 1 / 2"
    by (simp_all add: limited_def jittery_def)
  note run = flood_wait_is_overwritten [OF h1 h2 h3, where is_set = "\<lambda>i. False"
      and pool = pool3 and count = 1 and link = channel_link and phone = "''+10000001''"
      and s = 30 and invite = private_link and client = "TelegramClient ''+10000001''"
      and msg_link = message_link and chat_identifier = "''chan''" and message_id = 5
      and seconds = 5 and e = "FloodWaitError 5" and emoji = "''fire''"]
  note jitter = flood_wait_is_overwritten [OF h1 h2' h3, where seconds = 5
      and v = "waiting_world\<lparr>clock := 100, answered := 2\<rparr>" and left = 0
      and client = "TelegramClient ''+10000001''" and phone = "''+10000001''"
      and chat_identifier = "''chan''" and chat = 7 and message_id = 5 and emoji = "''fire''",
      THEN conjunct2, THEN conjunct2, THEN conjunct2, THEN conjunct2, THEN conjunct2,
      THEN conjunct2, THEN conjunct1]
  have r: "flood_wait_until (register_flood_wait ''+10000001'' 30 waiting_world) ''+10000001''
       = Some 110"
    using run [THEN conjunct1] k by simp
  have l: "flood_wait_until
        (snd (snd (snd (process_leave_loop limited (\<lambda>i. False) pool3 1 channel_link
           waiting_world)))) ''+10000001''
       = Some 105"
    by (simp add: model_defs example_defs)
  have connected: "fst (ensure_connected limited (TelegramClient ''+10000001'') ''+10000001''
        waiting_world)"
    by (simp add: model_defs example_defs)
  have invited: "snd (answer limited (answered (snd (ensure_connected limited
        (TelegramClient ''+10000001'') ''+10000001'' waiting_world))))
       = Inl (FloodWaitError 5)"
    by (simp add: model_defs example_defs)
  have info: "extract_message_info message_link = Some (''chan'', 5)"
    by (simp add: model_defs example_defs)
  have j1: "flood_wait_until
        (snd (join_channel cfg1 limited (TelegramClient ''+10000001'') private_link
           ''+10000001'' waiting_world))
       = (flood_wait_until waiting_world)
           (''+10000001'' \<mapsto> clock (snd (join_channel cfg1 limited
               (TelegramClient ''+10000001'') private_link ''+10000001'' waiting_world))
             + real 5)"
    using run [THEN conjunct2, THEN conjunct2, THEN conjunct2, THEN conjunct1]
      connected invited
    by (simp add: private_link_def startswith_def)
  have j2: "clock (snd (join_channel cfg1 limited (TelegramClient ''+10000001'') private_link
               ''+10000001'' waiting_world)) = 100"
    by (simp add: model_defs example_defs)
  have j3: "flood_wait_until
        (snd (join_channel cfg1 limited (TelegramClient ''+10000001'') channel_link
           ''+10000001'' waiting_world))
       = flood_wait_until waiting_world"
    using run [THEN conjunct2, THEN conjunct2, THEN conjunct2, THEN conjunct2, THEN conjunct1]
    by (simp add: channel_link_def startswith_def)
  have entity: "fst (send_view_entity limited ''+10000001'' ''chan''
        (respect_flood_limit ''+10000001'' 0 (snd (ensure_connected limited
           (TelegramClient ''+10000001'') ''+10000001'' waiting_world))))
       = Inl (FloodWaitError 5)"
    by (simp add: model_defs example_defs)
  have v1: "flood_wait_until
        (snd (send_view limited (TelegramClient ''+10000001'') message_link ''+10000001''
           waiting_world))
       = (flood_wait_until waiting_world)
           (''+10000001'' \<mapsto> clock (snd (send_view limited (TelegramClient ''+10000001'')
               message_link ''+10000001'' waiting_world)) + real 5)"
    using run [THEN conjunct2, THEN conjunct2, THEN conjunct2, THEN conjunct2, THEN conjunct2,
        THEN conjunct1] info connected entity
    by simp
  have v2: "clock (snd (send_view limited (TelegramClient ''+10000001'') message_link
               ''+10000001'' waiting_world)) = 100"
    by (simp add: model_defs example_defs)
  have resolution: "fst (send_reaction_entity limited ''+10000001'' ''chan''
        (respect_flood_limit ''+10000001'' 0 (snd (ensure_connected limited
           (TelegramClient ''+10000001'') ''+10000001'' waiting_world))))
       = Inl (FloodWaitError 5)"
    by (simp add: model_defs example_defs)
  have s1: "flood_wait_until
        (snd (send_reaction cfg1 limited (TelegramClient ''+10000001'') message_link
           ''+10000001'' ''fire'' waiting_world))
       = flood_wait_until waiting_world"
    using run [THEN conjunct2, THEN conjunct2, THEN conjunct2, THEN conjunct2, THEN conjunct2,
        THEN conjunct2, THEN conjunct2, THEN conjunct1] info connected resolution
    by simp
  have t1: "flood_wait_until
        (snd (send_reaction_attempts cfg1 jittery (TelegramClient ''+10000001'') ''+10000001''
           ''chan'' 7 5 ''fire'' (Suc 0) (waiting_world\<lparr>clock := 100, answered := 2\<rparr>)))
        ''+10000001''
       = Some (211 / 2)"
  proof -
    obtain v2 where "send_reaction_attempts cfg1 jittery (TelegramClient ''+10000001'')
          ''+10000001'' ''chan'' 7 5 ''fire'' (Suc 0)
          (waiting_world\<lparr>clock := 100, answered := 2\<rparr>) = (None, v2)"
      and "flood_wait_until v2
         = (flood_wait_until (waiting_world\<lparr>clock := 100, answered := 2\<rparr>))
             (''+10000001'' \<mapsto> clock (waiting_world\<lparr>clock := 100, answered := 2\<rparr>)
                + real (fst (answer jittery
                     (answered (waiting_world\<lparr>clock := 100, answered := 2\<rparr>))))
                + (real 5 + uniform jittery
                     (drawn (waiting_world\<lparr>clock := 100, answered := 2\<rparr>))))"
      using jitter a2 by auto
    then show ?thesis
      by (simp add: jittery_def waiting_world_def world0_def)
  qed
  have t2: "flood_wait_until
        (snd (send_reaction cfg1 jittery (TelegramClient ''+10000001'') message_link
           ''+10000001'' ''fire'' waiting_world)) ''+10000001''
       = Some (211 / 2)"
    by (simp add: model_defs example_defs)
  define asked where "asked = late_bot\<lparr>world := world0\<lparr>clock := 10\<rparr>\<rparr>"
  have number: "normalize_phone (strip ''+1 (234) 567'') = ''+1234567''"
    by (simp add: handler_defs model_defs)
  have p1: "user_states asked 7 = Some awaiting_phone"
    and p2: "st_state awaiting_phone = ''phone''"
    and p3: "phone_pattern (normalize_phone (strip ''+1 (234) 567''))"
    and p4: "normalize_phone (strip ''+1 (234) 567'') \<notin> set (map fst (user_clients asked))"
    unfolding number by (simp_all add: asked_def handler_defs model_defs example_defs)
  have p5: "fst (ensure_connected limited
        (TelegramClient (normalize_phone (strip ''+1 (234) 567'')))
        (normalize_phone (strip ''+1 (234) 567'')) (world asked))"
    and p6: "snd (answer limited (answered (snd (ensure_connected limited
        (TelegramClient (normalize_phone (strip ''+1 (234) 567'')))
        (normalize_phone (strip ''+1 (234) 567'')) (world asked)))))
       = Inl (FloodWaitError 5)"
    unfolding number by (simp_all add: asked_def model_defs example_defs)
  have c1: "flood_wait_until (world (receive_phone limited 7 ''+1 (234) 567'' asked))
       = (flood_wait_until (world asked))
           (normalize_phone (strip ''+1 (234) 567'')
              \<mapsto> clock (world (receive_phone limited 7 ''+1 (234) 567'' asked)) + real 5)"
    using run [where b = asked and user_id = 7 and st = awaiting_phone
        and message_text = "''+1 (234) 567''", THEN conjunct2, THEN conjunct2, THEN conjunct2,
        THEN conjunct2, THEN conjunct2, THEN conjunct2, THEN conjunct2, THEN conjunct2,
        THEN conjunct1] p1 p2 p3 p4 p5 p6
    by simp
  have c2: "clock (world (receive_phone limited 7 ''+1 (234) 567'' asked)) = 10"
    by (simp add: asked_def handler_defs model_defs example_defs)
  have c3: "flood_wait_until
        (world (receive_phone limited 7 ''+1 (234) 567''
                  (late_bot\<lparr>world := world0\<lparr>clock := 10\<rparr>\<rparr>))) ''+1234567''
       = Some 15"
    using c1 by (simp add: c2 number asked_def [symmetric])
  show ?thesis
    using h1 k h3 a1 a2 a3 r l t1 t2 c3
    by (simp add: j1 j2 j3 v1 v2 s1)
qed

text \<open>
  The claim as stated has the maximum of the current entry and the time of the clock
  plus \<open>s\<close> written. \<^const>\<open>receive_phone\<close> registers without waiting first: at time 10,
  with an entry of 1000 for the number, a flood wait of 5 seconds sets the entry to 15,
  below the current entry and below the maximum.
\<close>

theorem flood_wait_decreased:
  "flood_wait_until (world late_bot) ''+1234567'' = Some 1000
   \<and> clock (world late_bot) = 10
   \<and> flood_wait_until (world (receive_phone limited 7 ''+1234567'' late_bot)) ''+1234567''
       = Some 15
   \<and> (15 :: real) < max 1000 (10 + 5)
   \<and> flood_wait_until
        (register_flood_wait ''+1234567'' 5 (world late_bot)) ''+1234567'' = Some 15"
  by (simp add: handler_defs model_defs example_defs)

section \<open>Entity resolution\<close>




section \<open>The rotation of the reaction ledger\<close>

lemma subset_alphabet: "used \<subseteq> set emojis \<Longrightarrow> (set emojis \<subseteq> used) = (used = set emojis)"
  by auto

lemma process_react_account_outcome:
  assumes "select_emoji (EMOJIS cfg) (case ledger p of None \<Rightarrow> {} | Some u \<Rightarrow> u)
             (pick env (drawn w)) = (Inr g, used1)"
    and "g \<noteq> []"
  shows "process_react_account cfg env l (p, c, ss) (ledger, t) w
     = (if fst (send_reaction cfg env c l p g (w\<lparr>drawn := Suc (drawn w)\<rparr>)) = None
        then (None, (ledger(p \<mapsto> used1), failed (ReactFailedEntry p) t),
              respect_flood_limit p (REACT_DELAY cfg)
                (reply (ReactFailed p l)
                   (snd (send_reaction cfg env c l p g (w\<lparr>drawn := Suc (drawn w)\<rparr>)))))
        else (None, (ledger(p \<mapsto> insert g used1), succeeded (ReactedEntry p g) t),
              respect_flood_limit p (REACT_DELAY cfg)
                (reply (Reacted p l g)
                   (snd (send_reaction cfg env c l p g (w\<lparr>drawn := Suc (drawn w)\<rparr>))))))"
proof -
  define w0 where "w0 = w\<lparr>drawn := Suc (drawn w)\<rparr>"
  obtain res w1 where s: "send_reaction cfg env c l p g w0 = (res, w1)"
    by (cases "send_reaction cfg env c l p g w0")
  have "res = None \<or> res = Some g"
    using send_reaction_result [of cfg env c l p g w0] by (simp add: s)
  then show ?thesis
    using assms s by (auto simp add: process_react_account_def w0_def [symmetric])
qed

text \<open>
  Claim C1, as the code has it. Take an account processed by a reaction batch for a
  link, and the set \<open>used\<close> of the emojis the ledger holds for the pair (empty when
  there is no entry), a subset of the alphabet \<^verbatim>\<open>EMOJIS\<close>. The emoji \<open>g\<close> chosen is one
  of the alphabet. When \<open>used\<close> is not the whole alphabet, \<open>g\<close> is not in \<open>used\<close> and
  the set is left as it is; when \<open>used\<close> is the whole alphabet, the set is cleared
  before the choice is made from the whole alphabet. The reaction is then sent with
  \<open>g\<close>. When it succeeds (\<^verbatim>\<open>send_reaction\<close> returns the emoji), \<open>g\<close> is added to the
  set the choice has left, the success is counted and replied. When it fails
  (\<^verbatim>\<open>send_reaction\<close> returns \<^verbatim>\<open>None\<close>), nothing is added and nothing is restored: the
  set stays as the choice has left it, unchanged when \<open>used\<close> was not the whole
  alphabet and empty when it was; the failure is listed and replied. Either way the
  new set is again a subset of the alphabet, and the entries of the other accounts are
  untouched. (The alphabet is never empty and holds no empty string: lines 87 to 90.)
\<close>

theorem reaction_ledger_rotation:
  assumes "EMOJIS cfg \<noteq> []" and "[] \<notin> set (EMOJIS cfg)"
    and "used = (case ledger phone of None \<Rightarrow> {} | Some u \<Rightarrow> u)"
    and "used \<subseteq> set (EMOJIS cfg)"
  shows "\<exists>g used1.
      select_emoji (EMOJIS cfg) used (pick env (drawn w)) = (Inr g, used1)
      \<and> g \<in> set (EMOJIS cfg)
      \<and> (used \<noteq> set (EMOJIS cfg) \<longrightarrow> g \<notin> used \<and> used1 = used)
      \<and> (used = set (EMOJIS cfg) \<longrightarrow> used1 = {})
      \<and> insert g used1 \<subseteq> set (EMOJIS cfg)
      \<and> fst (fst (snd (process_react_account cfg env link (phone, client, session_string)
                          (ledger, t) w))) phone
          = Some ((if fst (send_reaction cfg env client link phone g
                             (w\<lparr>drawn := Suc (drawn w)\<rparr>)) = None
                   then {} else {g})
                  \<union> (if used = set (EMOJIS cfg) then {} else used))
      \<and> process_react_account cfg env link (phone, client, session_string) (ledger, t) w
          = (if fst (send_reaction cfg env client link phone g (w\<lparr>drawn := Suc (drawn w)\<rparr>))
                = None
             then (None, (ledger(phone \<mapsto> used1), failed (ReactFailedEntry phone) t),
                   respect_flood_limit phone (REACT_DELAY cfg)
                     (reply (ReactFailed phone link)
                        (snd (send_reaction cfg env client link phone g
                                (w\<lparr>drawn := Suc (drawn w)\<rparr>)))))
             else (None,
                   (ledger(phone \<mapsto> insert g used1), succeeded (ReactedEntry phone g) t),
                   respect_flood_limit phone (REACT_DELAY cfg)
                     (reply (Reacted phone link g)
                        (snd (send_reaction cfg env client link phone g
                                (w\<lparr>drawn := Suc (drawn w)\<rparr>))))))"
proof -
  obtain g where sel: "select_emoji (EMOJIS cfg) used (pick env (drawn w))
      = (Inr g, if set (EMOJIS cfg) \<subseteq> used then {} else used)"
    and g: "g \<in> set (EMOJIS cfg)" "\<not> set (EMOJIS cfg) \<subseteq> used \<longrightarrow> g \<notin> used"
    using select_emoji_unused [OF assms(1), of used "pick env (drawn w)"] by blast
  define used1 where "used1 = (if set (EMOJIS cfg) \<subseteq> used then {} else used)"
  have full: "(set (EMOJIS cfg) \<subseteq> used) = (used = set (EMOJIS cfg))"
    using assms(4) by (rule subset_alphabet)
  have nonempty: "g \<noteq> []"
    using g(1) assms(2) by auto
  have facts: "(used \<noteq> set (EMOJIS cfg) \<longrightarrow> g \<notin> used \<and> used1 = used)
        \<and> (used = set (EMOJIS cfg) \<longrightarrow> used1 = {})
        \<and> insert g used1 \<subseteq> set (EMOJIS cfg)"
    using g assms(4) full by (auto simp add: used1_def)
  have sel1: "select_emoji (EMOJIS cfg) used (pick env (drawn w)) = (Inr g, used1)"
    using sel by (simp add: used1_def)
  have run: "process_react_account cfg env link (phone, client, session_string) (ledger, t) w
          = (if fst (send_reaction cfg env client link phone g (w\<lparr>drawn := Suc (drawn w)\<rparr>))
                = None
             then (None, (ledger(phone \<mapsto> used1), failed (ReactFailedEntry phone) t),
                   respect_flood_limit phone (REACT_DELAY cfg)
                     (reply (ReactFailed phone link)
                        (snd (send_reaction cfg env client link phone g
                                (w\<lparr>drawn := Suc (drawn w)\<rparr>)))))
             else (None,
                   (ledger(phone \<mapsto> insert g used1), succeeded (ReactedEntry phone g) t),
                   respect_flood_limit phone (REACT_DELAY cfg)
                     (reply (Reacted phone link g)
                        (snd (send_reaction cfg env client link phone g
                                (w\<lparr>drawn := Suc (drawn w)\<rparr>))))))"
    by (rule process_react_account_outcome [where ledger = ledger and p = phone,
          OF sel1 [unfolded assms(3)] nonempty])
  have entry: "fst (fst (snd (process_react_account cfg env link
                                (phone, client, session_string) (ledger, t) w))) phone
          = Some ((if fst (send_reaction cfg env client link phone g
                             (w\<lparr>drawn := Suc (drawn w)\<rparr>)) = None
                   then {} else {g})
                  \<union> (if used = set (EMOJIS cfg) then {} else used))"
    unfolding run by (simp add: used1_def full)
  show ?thesis
    using sel1 g(1) facts entry run by blast
qed

text \<open>
  The alphabet of two emojis when the account has used the first: the second is chosen.
  When the remote side answers every call, the reaction succeeds and the ledger holds
  both; when the resolution of the chat fails, the reaction fails and the ledger holds
  the first alone, as before.
\<close>

theorem reaction_ledger_rotation_witness:
  "EMOJIS cfg1 \<noteq> [] \<and> [] \<notin> set (EMOJIS cfg1)
   \<and> {''thumbs_up''} \<subseteq> set (EMOJIS cfg1)
   \<and> select_emoji (EMOJIS cfg1) {''thumbs_up''} (pick quiet (drawn world0))
       = (Inr ''fire'', {''thumbs_up''})
   \<and> fst (send_reaction cfg1 quiet (TelegramClient ''+10000001'') message_link ''+10000001''
        ''fire'' (world0\<lparr>drawn := Suc (drawn world0)\<rparr>)) = Some ''fire''
   \<and> fst (fst (snd (process_react_account cfg1 quiet message_link
        (''+10000001'', TelegramClient ''+10000001'', ''session1'')
        ([''+10000001'' \<mapsto> {''thumbs_up''}], no_tally) world0))) ''+10000001''
       = Some {''fire'', ''thumbs_up''}
   \<and> fst (send_reaction cfg1 limited (TelegramClient ''+10000001'') message_link ''+10000001''
        ''fire'' (world0\<lparr>drawn := Suc (drawn world0)\<rparr>)) = None
   \<and> fst (fst (snd (process_react_account cfg1 limited message_link
        (''+10000001'', TelegramClient ''+10000001'', ''session1'')
        ([''+10000001'' \<mapsto> {''thumbs_up''}], no_tally) world0))) ''+10000001''
       = Some {''thumbs_up''}"
proof -
  have h1: "EMOJIS cfg1 \<noteq> []" and h2: "[] \<notin> set (EMOJIS cfg1)"
    and h4: "{''thumbs_up''} \<subseteq> set (EMOJIS cfg1)"
    and part: "{''thumbs_up''} \<noteq> set (EMOJIS cfg1)"
    by (auto simp add: cfg1_def)
  have h3: "{''thumbs_up''}
      = (case [''+10000001'' \<mapsto> {''thumbs_up''}] ''+10000001'' of None \<Rightarrow> {} | Some u \<Rightarrow> u)"
    by simp
  have sel: "select_emoji (EMOJIS cfg1) {''thumbs_up''} (pick quiet (drawn world0))
       = (Inr ''fire'', {''thumbs_up''})"
    and sel': "select_emoji (EMOJIS cfg1) {''thumbs_up''} (pick limited (drawn world0))
       = (Inr ''fire'', {''thumbs_up''})"
    by (simp_all add: model_defs example_defs)
  have sent: "fst (send_reaction cfg1 quiet (TelegramClient ''+10000001'') message_link
        ''+10000001'' ''fire'' (world0\<lparr>drawn := Suc (drawn world0)\<rparr>)) = Some ''fire''"
    and refused: "fst (send_reaction cfg1 limited (TelegramClient ''+10000001'') message_link
        ''+10000001'' ''fire'' (world0\<lparr>drawn := Suc (drawn world0)\<rparr>)) = None"
    by (simp_all add: model_defs example_defs)
  obtain g used1 where
    "select_emoji (EMOJIS cfg1) {''thumbs_up''} (pick quiet (drawn world0)) = (Inr g, used1)"
    and run: "fst (fst (snd (process_react_account cfg1 quiet message_link
          (''+10000001'', TelegramClient ''+10000001'', ''session1'')
          ([''+10000001'' \<mapsto> {''thumbs_up''}], no_tally) world0))) ''+10000001''
        = Some ((if fst (send_reaction cfg1 quiet (TelegramClient ''+10000001'') message_link
                           ''+10000001'' g (world0\<lparr>drawn := Suc (drawn world0)\<rparr>)) = None
                 then {} else {g})
                \<union> (if {''thumbs_up''} = set (EMOJIS cfg1) then {} else {''thumbs_up''}))"
    using reaction_ledger_rotation [where ledger = "[''+10000001'' \<mapsto> {''thumbs_up''}]"
        and phone = "''+10000001''" and env = quiet and w = world0
        and link = message_link and client = "TelegramClient ''+10000001''"
        and session_string = "''session1''" and t = no_tally, OF h1 h2 h3 h4]
    by blast
  then have g: "g = ''fire''"
    using sel by simp
  have added: "fst (fst (snd (process_react_account cfg1 quiet message_link
        (''+10000001'', TelegramClient ''+10000001'', ''session1'')
        ([''+10000001'' \<mapsto> {''thumbs_up''}], no_tally) world0))) ''+10000001''
       = Some {''fire'', ''thumbs_up''}"
    unfolding run g using sent part by auto
  obtain g' used1' where
    "select_emoji (EMOJIS cfg1) {''thumbs_up''} (pick limited (drawn world0)) = (Inr g', used1')"
    and run': "fst (fst (snd (process_react_account cfg1 limited message_link
          (''+10000001'', TelegramClient ''+10000001'', ''session1'')
          ([''+10000001'' \<mapsto> {''thumbs_up''}], no_tally) world0))) ''+10000001''
        = Some ((if fst (send_reaction cfg1 limited (TelegramClient ''+10000001'') message_link
                           ''+10000001'' g' (world0\<lparr>drawn := Suc (drawn world0)\<rparr>)) = None
                 then {} else {g'})
                \<union> (if {''thumbs_up''} = set (EMOJIS cfg1) then {} else {''thumbs_up''}))"
    using reaction_ledger_rotation [where ledger = "[''+10000001'' \<mapsto> {''thumbs_up''}]"
        and phone = "''+10000001''" and env = limited and w = world0
        and link = message_link and client = "TelegramClient ''+10000001''"
        and session_string = "''session1''" and t = no_tally, OF h1 h2 h3 h4]
    by blast
  then have g': "g' = ''fire''"
    using sel' by simp
  have kept: "fst (fst (snd (process_react_account cfg1 limited message_link
        (''+10000001'', TelegramClient ''+10000001'', ''session1'')
        ([''+10000001'' \<mapsto> {''thumbs_up''}], no_tally) world0))) ''+10000001''
       = Some {''thumbs_up''}"
    unfolding run' g' using refused part by auto
  show ?thesis
    using h1 h2 h4 sel sent added refused kept by simp
qed

text \<open>
  The claim as stated has the set unchanged by a failed reaction. When the account has
  used the whole alphabet, the set is cleared before the reaction is sent (line 854),
  and a failed reaction leaves it cleared: with both emojis used and a resolution of the
  chat that fails, the reaction fails, it is listed as failed, and the ledger holds the
  empty set for the account, in the body of the loop and in what \<^verbatim>\<open>process_react\<close>
  leaves in \<^verbatim>\<open>reaction_history\<close>.
\<close>

theorem failed_reaction_clears_full_ledger:
  "set (EMOJIS cfg1) = {''thumbs_up'', ''fire''}
   \<and> fst (send_reaction cfg1 limited (TelegramClient ''+10000001'') message_link ''+10000001''
        ''thumbs_up'' (world0\<lparr>drawn := Suc (drawn world0)\<rparr>)) = None
   \<and> fst (fst (snd (process_react_account cfg1 limited message_link
        (''+10000001'', TelegramClient ''+10000001'', ''session1'')
        ([''+10000001'' \<mapsto> {''thumbs_up'', ''fire''}], no_tally) world0))) ''+10000001''
       = Some {}
   \<and> failed_list (snd (fst (snd (process_react_account cfg1 limited message_link
        (''+10000001'', TelegramClient ''+10000001'', ''session1'')
        ([''+10000001'' \<mapsto> {''thumbs_up'', ''fire''}], no_tally) world0))))
       = [ReactFailedEntry ''+10000001'']
   \<and> fst (process_react cfg1 limited (\<lambda>i. False) pool3
        [message_link \<mapsto> [''+10000001'' \<mapsto> {''thumbs_up'', ''fire''}]] 1 message_link world0)
       = Inr (Summary 0 1 [] [ReactFailedEntry ''+10000001''])
   \<and> Option.bind
        (fst (snd (process_react cfg1 limited (\<lambda>i. False) pool3
           [message_link \<mapsto> [''+10000001'' \<mapsto> {''thumbs_up'', ''fire''}]] 1 message_link
           world0)) message_link)
        (\<lambda>ledger. ledger ''+10000001'')
       = Some {}"
  by (simp add: model_defs example_defs)

section \<open>The router ignores example links\<close>

text \<open>
  Claim C10. For an operator with a conversation state, in whatever step, a message
  whose text starts with \<^verbatim>\<open>http://example.com/\<close> is dropped by
  \<^const>\<open>message_handler\<close>: no step handler is awaited, whatever the handlers are, the
  conversation states are unchanged and the world, with the replies sent, is unchanged.
  Only \<^verbatim>\<open>known_users\<close> records the sender.
\<close>

theorem message_handler_ignores_example_links:
  assumes "user_states b user_id = Some st" and "startswith text ''http://example.com/''"
  shows "message_handler run user_id text b
           = (None, b\<lparr>known_users := insert user_id (known_users b)\<rparr>)
    \<and> user_states (snd (message_handler run user_id text b)) = user_states b
    \<and> world (snd (message_handler run user_id text b)) = world b"
  using assms by (simp add: message_handler_def Let_def)

theorem message_handler_ignores_example_links_witness:
  "user_states (bot0\<lparr>user_states := [7 \<mapsto> awaiting_phone]\<rparr>) 7 = Some awaiting_phone
   \<and> startswith ''http://example.com/x'' ''http://example.com/''
   \<and> message_handler (\<lambda>name user_id text. say InvalidNumber) 7 ''http://example.com/x''
        (bot0\<lparr>user_states := [7 \<mapsto> awaiting_phone]\<rparr>)
       = (None, bot0\<lparr>user_states := [7 \<mapsto> awaiting_phone], known_users := {7}\<rparr>)"
proof -
  have h1: "user_states (bot0\<lparr>user_states := [7 \<mapsto> awaiting_phone]\<rparr>) 7 = Some awaiting_phone"
    by simp
  have h2: "startswith ''http://example.com/x'' ''http://example.com/''"
    by (simp add: startswith_def)
  show ?thesis
    using message_handler_ignores_example_links [OF h1 h2, of "\<lambda>name user_id text. say InvalidNumber"] h1 h2
    by (simp add: bot0_def)
qed

end
